theory Spec2Isabelle
  imports Main
begin

unbundle bit_operations_syntax

section \<open>Strings\<close>

text \<open>
  A Python \<open>str\<close> is a sequence of Unicode code points; it is modelled as a list of
  natural numbers, so that \<open>length\<close> is Python's \<open>len\<close> and the box-drawing glyphs of
  the border styles are single elements. \<open>u\<close> turns an ASCII literal into such a list.
\<close>

type_synonym pystr = "nat list"

definition u :: "string \<Rightarrow> pystr" where
  "u s = map of_char s"

text \<open>\<open>sep.join(xs)\<close>\<close>

fun join :: "pystr \<Rightarrow> pystr list \<Rightarrow> pystr" where
  "join sep [] = []"
| "join sep [x] = x"
| "join sep (x # y # ys) = x @ sep @ join sep (y # ys)"

text \<open>\<open>s * n\<close> for an integer \<open>n\<close>: the empty string when \<open>n\<close> is not positive.\<close>

definition times :: "pystr \<Rightarrow> int \<Rightarrow> pystr" where
  "times s n = concat (replicate (nat n) s)"

text \<open>\<open>s.split(c)\<close> for a one-character separator: never empty, \<open>''.split(c) = ['']\<close>.\<close>

fun split_on :: "nat \<Rightarrow> pystr \<Rightarrow> pystr list" where
  "split_on c [] = [[]]"
| "split_on c (x # xs) =
     (if x = c then [] # split_on c xs
      else (x # hd (split_on c xs)) # tl (split_on c xs))"

text \<open>The characters \<open>str.strip()\<close> and \<open>str.split()\<close> treat as whitespace.\<close>

definition is_space :: "nat \<Rightarrow> bool" where
  "is_space c \<longleftrightarrow>
     (9 \<le> c \<and> c \<le> 13) \<or> (28 \<le> c \<and> c \<le> 32) \<or> c = 133 \<or> c = 160 \<or> c = 5760 \<or>
     (8192 \<le> c \<and> c \<le> 8202) \<or> c = 8232 \<or> c = 8233 \<or> c = 8239 \<or> c = 8287 \<or> c = 12288"

text \<open>\<open>c.strip() == ""\<close>\<close>

definition is_blank :: "pystr \<Rightarrow> bool" where
  "is_blank s \<longleftrightarrow> list_all is_space s"

text \<open>\<open>s.split()\<close>: the maximal runs of non-whitespace characters.\<close>

fun split_ws_acc :: "pystr \<Rightarrow> pystr \<Rightarrow> pystr list" where
  "split_ws_acc w [] = (if w = [] then [] else [w])"
| "split_ws_acc w (c # cs) =
     (if is_space c then (if w = [] then split_ws_acc [] cs else w # split_ws_acc [] cs)
      else split_ws_acc (w @ [c]) cs)"

definition split_ws :: "pystr \<Rightarrow> pystr list" where
  "split_ws s = split_ws_acc [] s"

section \<open>Escape sequences\<close>

text \<open>\<open>self.ansi_norm = "\033[0m"\<close>\<close>

definition ansi_norm :: pystr where
  "ansi_norm = [27, 91, 48, 109]"

text \<open>The character classes \<open>[0-?]\<close>, \<open>[ -/]\<close>, \<open>[@-~]\<close> and \<open>[@-Z\\-_]\<close>.\<close>

definition is_param :: "nat \<Rightarrow> bool" where
  "is_param c \<longleftrightarrow> 48 \<le> c \<and> c \<le> 63"

definition is_inter :: "nat \<Rightarrow> bool" where
  "is_inter c \<longleftrightarrow> 32 \<le> c \<and> c \<le> 47"

definition is_final :: "nat \<Rightarrow> bool" where
  "is_final c \<longleftrightarrow> 64 \<le> c \<and> c \<le> 126"

definition is_fe :: "nat \<Rightarrow> bool" where
  "is_fe c \<longleftrightarrow> (64 \<le> c \<and> c \<le> 90) \<or> (92 \<le> c \<and> c \<le> 95)"

text \<open>
  \<open>[0-?]*[ -/]*[@-~]\<close> matched at the start of \<open>s\<close>: the matched text and the rest.
  The three classes are disjoint, so the greedy match is the only one and backtracking
  finds no other.
\<close>

definition csi_body :: "pystr \<Rightarrow> (pystr \<times> pystr) option" where
  "csi_body s =
     (let ps = takeWhile is_param s; r1 = dropWhile is_param s;
          is = takeWhile is_inter r1; r2 = dropWhile is_inter r1
      in case r2 of
           [] \<Rightarrow> None
         | f # r3 \<Rightarrow> if is_final f then Some (ps @ is @ [f], r3) else None)"

text \<open>
  \<open>StringLengthCalculator.ansi_escape\<close>, the pattern
  \<open>\x1B(?:[@-Z\\-_]|\[[0-?]*[ -/]*[@-~])\<close>, matched at the start of the text.
\<close>

fun ansi_escape_match :: "pystr \<Rightarrow> (pystr \<times> pystr) option" where
  "ansi_escape_match (e # c # s) =
     (if e = 27 then
        (if is_fe c then Some ([e, c], s)
         else if c = 91 then
           (case csi_body s of
              Some (b, r) \<Rightarrow> Some (e # c # b, r)
            | None \<Rightarrow> None)
         else None)
      else None)"
| "ansi_escape_match _ = None"

lemma csi_body_shorter: "csi_body s = Some (b, r) \<Longrightarrow> length r < length s"
proof -
  assume a: "csi_body s = Some (b, r)"
  let ?r1 = "dropWhile is_param s"
  let ?r2 = "dropWhile is_inter ?r1"
  from a obtain f where f: "?r2 = f # r"
    by (auto simp: csi_body_def Let_def split: list.splits if_splits)
  have "length ?r2 \<le> length ?r1" by (rule length_dropWhile_le)
  moreover have "length ?r1 \<le> length s" by (rule length_dropWhile_le)
  ultimately show ?thesis using f by simp
qed

lemma ansi_escape_match_shorter:
  "ansi_escape_match s = Some (m, r) \<Longrightarrow> length r < length s"
  by (cases s rule: ansi_escape_match.cases)
     (auto split: if_splits option.splits dest: csi_body_shorter)

text \<open>\<open>self.ansi_escape.sub('', string)\<close>: every match, found left to right, is removed.\<close>

function strip_ansi :: "pystr \<Rightarrow> pystr" where
  "strip_ansi [] = []"
| "strip_ansi (c # cs) =
     (case ansi_escape_match (c # cs) of
        Some (m, r) \<Rightarrow> strip_ansi r
      | None \<Rightarrow> c # strip_ansi cs)"
  by pat_completeness auto
termination
  by (relation "measure length") (auto dest: ansi_escape_match_shorter)

text \<open>
  The lookahead \<open>.*\033\[0m\<close> of \<open>non_reset_not_followed_by_reset\<close>: a reset sequence
  starts somewhere in the text, with no newline before it (\<open>.\<close> does not match a newline).
\<close>

fun reset_ahead :: "pystr \<Rightarrow> bool" where
  "reset_ahead [] = False"
| "reset_ahead (c # cs) =
     (if take 4 (c # cs) = ansi_norm then True
      else if c = 10 then False
      else reset_ahead cs)"

text \<open>
  \<open>self.non_reset_not_followed_by_reset\<close>, the pattern
  \<open>(\033\[(?:(?!0m)[0-?]*[ -/]*[@-~]))(?!.*\033\[0m)\<close>, matched at the start of the
  text: the text of group 1 and the rest.
\<close>

fun non_reset_match :: "pystr \<Rightarrow> (pystr \<times> pystr) option" where
  "non_reset_match (e # c # s) =
     (if e = 27 \<and> c = 91 \<and> take 2 s \<noteq> [48, 109] then
        (case csi_body s of
           Some (b, r) \<Rightarrow> if reset_ahead r then None else Some (e # c # b, r)
         | None \<Rightarrow> None)
      else None)"
| "non_reset_match _ = None"

lemma non_reset_match_shorter:
  "non_reset_match s = Some (m, r) \<Longrightarrow> length r < length s"
  by (cases s rule: non_reset_match.cases)
     (auto split: if_splits option.splits dest: csi_body_shorter)

text \<open>\<open>self.non_reset_not_followed_by_reset.findall(line)\<close>\<close>

function findall_nr :: "pystr \<Rightarrow> pystr list" where
  "findall_nr [] = []"
| "findall_nr (c # cs) =
     (case non_reset_match (c # cs) of
        Some (m, r) \<Rightarrow> m # findall_nr r
      | None \<Rightarrow> findall_nr cs)"
  by pat_completeness auto
termination
  by (relation "measure length") (auto dest: non_reset_match_shorter)

section \<open>Continuity of escape sequences over wrapped lines\<close>

text \<open>
  \<open>UniTable._process_lines\<close>. The body of the inner loop repairs one physical line:
  it takes the pending sequences and returns the repaired line with the sequences left
  pending. The inner loop runs over the physical lines of one cell, and the outer loop
  over the cells of the row threads the same variable \<open>unterminated_sequences\<close> through
  all of them.
\<close>

definition repair_line :: "pystr \<Rightarrow> pystr \<Rightarrow> pystr \<times> pystr" where
  "repair_line unterminated l =
     (let l1 = (if unterminated \<noteq> [] then unterminated @ l else l);
          unterminated1 = concat (findall_nr l1);
          l2 = (if unterminated1 \<noteq> [] then l1 @ ansi_norm else l1)
      in (l2, unterminated1))"

fun process_cell :: "pystr \<Rightarrow> pystr list \<Rightarrow> pystr list \<times> pystr" where
  "process_cell unterminated [] = ([], unterminated)"
| "process_cell unterminated (l # ls) =
     (case repair_line unterminated l of
        (l2, unterminated1) \<Rightarrow>
          (case process_cell unterminated1 ls of
             (ls', unterminated') \<Rightarrow> (l2 # ls', unterminated')))"

fun process_cells :: "pystr \<Rightarrow> pystr list list \<Rightarrow> pystr list list" where
  "process_cells unterminated [] = []"
| "process_cells unterminated (lines # rest) =
     (case process_cell unterminated lines of
        (lines', unterminated') \<Rightarrow> lines' # process_cells unterminated' rest)"

definition process_lines :: "pystr list list \<Rightarrow> pystr list list" where
  "process_lines lines_2d = process_cells [] lines_2d"

text \<open>
  A complete non-reset escape sequence: the whole text is one match of group 1 of
  \<open>non_reset_not_followed_by_reset\<close>.
\<close>

definition nr_escape :: "pystr \<Rightarrow> bool" where
  "nr_escape e \<longleftrightarrow> non_reset_match e = Some (e, [])"

section \<open>Errors and the functions the module imports\<close>

text \<open>
  The exceptions the module can raise, one constructor for each raise site that a
  property below tells apart. \<open>ArraySizeError n k\<close> is the error of \<open>_check_row_size\<close>,
  raised for an array of \<open>k\<close> elements where \<open>n\<close> are required, and \<open>GlyphCountError\<close> the
  \<open>ArraySizeError\<close> of \<open>set_table_lines\<close>. \<open>WidthTooLow m k\<close> is the \<open>ValueError\<close> of
  \<open>_compute_cols_width\<close>, whose message states the maximum width \<open>m\<close> and the minimum
  \<open>k\<close> for the table. The other \<open>ValueError\<close>s are those of \<open>set_style\<close>, \<open>set_padding\<close>,
  \<open>set_precision\<close> and \<open>set_cols_width\<close>, and the one the text wrapper raises for a
  width that is not positive. \<open>NumericError\<close> stands for the \<open>OverflowError\<close> or
  \<open>ValueError\<close> of \<open>int(round(f))\<close> on an infinity or a NaN.
\<close>

datatype error =
    ArraySizeError nat nat
  | GlyphCountError nat
  | UnknownStyle pystr
  | InvalidPadding int
  | InvalidPrecision int
  | NonPositiveWidth "int list"
  | WidthTooLow int int
  | WrapError
  | FallbackToText
  | NumericError
  | IndexError
  | KeyError
  | TypeError
  | AttributeError

text \<open>
  The functions the module takes from outside: \<open>wcwidth.wcswidth\<close>, the \<open>textwrapper\<close>
  bound at import time (\<open>cjkwrap.wrap\<close> or \<open>textwrap.wrap\<close>, \<open>None\<close> when it raises), and
  the built-in operations on floats that the cell formatters use. The type \<open>'f\<close> stands
  for Python's floats: \<open>builtin_float\<close> is \<open>float(x)\<close> on a string (\<open>None\<close> when it raises
  \<open>ValueError\<close>), \<open>exceeds_1e8 f\<close> is \<open>abs(f) > 1e8\<close>, \<open>is_nan f\<close> is \<open>f != f\<close>,
  \<open>is_integral f\<close> is \<open>f - round(f) == 0\<close>, \<open>str_int_round f\<close> is \<open>str(int(round(f)))\<close>
  (\<open>None\<close> when \<open>round\<close> raises), \<open>str_int_round_grouped f\<close> the same with thousands
  separators, and \<open>format_f n f\<close>, \<open>format_e n f\<close> are \<open>'%.*f' % (n, f)\<close> and
  \<open>'%.*e' % (n, f)\<close>. They are parameters of the model: every property below that does
  not name them holds for all of them.
\<close>

record 'f py =
  wcswidth :: "pystr \<Rightarrow> int"
  textwrapper :: "pystr \<Rightarrow> int \<Rightarrow> pystr list option"
  builtin_float :: "pystr \<Rightarrow> 'f option"
  exceeds_1e8 :: "'f \<Rightarrow> bool"
  is_nan :: "'f \<Rightarrow> bool"
  is_integral :: "'f \<Rightarrow> bool"
  str_int_round :: "'f \<Rightarrow> pystr option"
  str_int_round_grouped :: "'f \<Rightarrow> pystr option"
  format_f :: "int \<Rightarrow> 'f \<Rightarrow> pystr"
  format_e :: "int \<Rightarrow> 'f \<Rightarrow> pystr"

text \<open>The first error of a sequence of computations, or all their results.\<close>

fun collect :: "(error + 'a) list \<Rightarrow> error + 'a list" where
  "collect [] = Inr []"
| "collect (x # xs) =
     (case x of
        Inl e \<Rightarrow> Inl e
      | Inr v \<Rightarrow> (case collect xs of Inl e \<Rightarrow> Inl e | Inr vs \<Rightarrow> Inr (v # vs)))"

section \<open>Display width and the colour-aware wrapper\<close>

text \<open>\<open>StringLengthCalculator.len\<close>, which is \<open>UniTable.vislen\<close> on a string.\<close>

definition len :: "'f py \<Rightarrow> pystr \<Rightarrow> int" where
  "len py string = wcswidth py (strip_ansi string)"

text \<open>
  \<open>ColorAwareWrapper.wrap\<close>: the loop over the words, with the current line and the
  result so far, then the function itself.
\<close>

fun wrap_words :: "'f py \<Rightarrow> int \<Rightarrow> pystr list \<Rightarrow> pystr list \<Rightarrow> pystr list \<Rightarrow> pystr list \<times> pystr list" where
  "wrap_words py width line result [] = (line, result)"
| "wrap_words py width line result (word # words) =
     (let line_length = len py (join [32] line);
          word_length = len py word
      in if line_length + word_length + int (length line) > width
         then wrap_words py width [word] (result @ [join [32] line]) words
         else wrap_words py width (line @ [word]) result words)"

definition wrap :: "'f py \<Rightarrow> pystr \<Rightarrow> int \<Rightarrow> pystr" where
  "wrap py txt width =
     (case wrap_words py width [] [] (split_ws txt) of
        (line, result) \<Rightarrow>
          join [10] (if line \<noteq> [] then result @ [join [32] line] else result))"

section \<open>The table\<close>

text \<open>
  An entry of \<open>_dtype\<close>: a string (one of \<open>a\<close>, \<open>i\<close>, \<open>I\<close>, \<open>f\<close>, \<open>e\<close>, \<open>t\<close>, or any other,
  which \<open>format_map\<close> rejects) or a callable.
\<close>

datatype dtype = Code pystr | Callable "pystr \<Rightarrow> pystr"

datatype location = TOP | MIDDLE | BOTTOM

text \<open>
  The attributes of a \<open>UniTable\<close>; \<open>self_x\<close> is \<open>self._x\<close>. An attribute that may be
  missing (tested with \<open>hasattr\<close>) or \<open>None\<close> is an option. \<open>self_max_width\<close> is \<open>0\<close> where
  the source stores \<open>False\<close>. Cell values are strings.
\<close>

record table =
  self_has_border :: bool
  self_has_header :: bool
  self_row_size :: "nat option"
  self_header :: "pystr list"
  self_rows :: "pystr list list"
  self_style :: pystr
  self_precision :: int
  self_max_width :: int
  self_deco :: int
  self_pad :: int
  self_dtype :: "dtype list option"
  self_width :: "int list option"
  self_header_align :: "pystr list option"
  self_align :: "pystr list option"
  self_valign :: "pystr list option"
  self_char_ew :: pystr
  self_char_ns :: pystr
  self_char_se :: pystr
  self_char_sw :: pystr
  self_char_ne :: pystr
  self_char_nw :: pystr
  self_char_nse :: pystr
  self_char_nsw :: pystr
  self_char_sew :: pystr
  self_char_new :: pystr
  self_char_nsew :: pystr
  self_char_hew :: pystr
  self_char_hnse :: pystr
  self_char_hnsw :: pystr
  self_char_hnsew :: pystr

text \<open>
  A method that mutates the table returns the error it raised, if any, and the table as
  the call left it; \<open>and_then\<close> runs the next call unless the first one raised.
\<close>

type_synonym outcome = "error option \<times> table"

definition and_then :: "outcome \<Rightarrow> (table \<Rightarrow> outcome) \<Rightarrow> outcome" where
  "and_then r f = (case r of (None, t) \<Rightarrow> f t | (Some e, t) \<Rightarrow> (Some e, t))"

text \<open>\<open>UniTable.STYLES\<close>\<close>

definition STYLES :: "pystr \<Rightarrow> pystr list option" where
  "STYLES style =
     (if style = u ''ascii'' then Some [[45], [124], [43], [45]]
      else if style = u ''ascii2'' then Some [[45], [124], [43], [61]]
      else if style = u ''bold'' then
        Some [[9473], [9475], [9487], [9491], [9495], [9499], [9507], [9515], [9523],
              [9531], [9547], [9473], [9507], [9515], [9547]]
      else if style = u ''double'' then
        Some [[9552], [9553], [9556], [9559], [9562], [9565], [9568], [9571], [9574],
              [9577], [9580], [9552], [9568], [9571], [9580]]
      else if style = u ''light2'' then
        Some [[9472], [9474], [9484], [9488], [9492], [9496], [9500], [9508], [9516],
              [9524], [9532], [9552], [9566], [9569], [9578]]
      else if style = u ''round'' then
        Some [[9472], [9474], [9581], [9582], [9584], [9583], [9500], [9508], [9516],
              [9524], [9532], [9472], [9500], [9508], [9532]]
      else if style = u ''round2'' then
        Some [[9472], [9474], [9581], [9582], [9584], [9583], [9500], [9508], [9516],
              [9524], [9532], [9552], [9566], [9569], [9578]]
      else if style = u ''light'' then
        Some [[9472], [9474], [9484], [9488], [9492], [9496], [9500], [9508], [9516],
              [9524], [9532], [9472], [9500], [9508], [9532]]
      else if style = u ''none'' \<or> style = u ''none2'' then Some (replicate 15 [])
      else None)"

text \<open>\<open>UniTable.set_max_width\<close>\<close>

definition set_max_width :: "int \<Rightarrow> table \<Rightarrow> outcome" where
  "set_max_width max_width t =
     (None, t\<lparr>self_max_width := (if max_width > 0 then max_width else 0)\<rparr>)"

text \<open>\<open>UniTable._set_table_lines\<close> and \<open>UniTable.set_table_lines\<close>\<close>

definition set_table_lines15 :: "pystr list \<Rightarrow> table \<Rightarrow> outcome" where
  "set_table_lines15 table_lines t =
     (if length table_lines \<noteq> 15 then (Some (GlyphCountError (length table_lines)), t)
      else (None, t\<lparr>self_char_ew := table_lines ! 0, self_char_ns := table_lines ! 1,
                     self_char_se := table_lines ! 2, self_char_sw := table_lines ! 3,
                     self_char_ne := table_lines ! 4, self_char_nw := table_lines ! 5,
                     self_char_nse := table_lines ! 6, self_char_nsw := table_lines ! 7,
                     self_char_sew := table_lines ! 8, self_char_new := table_lines ! 9,
                     self_char_nsew := table_lines ! 10, self_char_hew := table_lines ! 11,
                     self_char_hnse := table_lines ! 12, self_char_hnsw := table_lines ! 13,
                     self_char_hnsew := table_lines ! 14\<rparr>))"

definition set_table_lines :: "pystr list \<Rightarrow> table \<Rightarrow> outcome" where
  "set_table_lines table_lines t =
     (if length table_lines = 15 then set_table_lines15 table_lines t
      else if length table_lines \<noteq> 4 then (Some (GlyphCountError (length table_lines)), t)
      else (let hor = table_lines ! 0; ver = table_lines ! 1;
                cor = table_lines ! 2; hea = table_lines ! 3
            in set_table_lines15
                 [hor, ver, cor, cor, cor, cor, cor, cor, cor, cor, cor, hea, cor, cor, cor] t))"

text \<open>\<open>UniTable.set_style\<close>: the name is stored before it is looked up.\<close>

definition set_style :: "pystr \<Rightarrow> table \<Rightarrow> outcome" where
  "set_style style t =
     (let t1 = t\<lparr>self_style := style\<rparr>
      in case STYLES style of
           Some table_lines \<Rightarrow> set_table_lines table_lines t1
         | None \<Rightarrow> (Some (UnknownStyle style), t1))"

text \<open>\<open>UniTable.set_decorations\<close>\<close>

definition set_decorations :: "int \<Rightarrow> table \<Rightarrow> outcome" where
  "set_decorations decorations t = (None, t\<lparr>self_deco := decorations\<rparr>)"

text \<open>\<open>UniTable._check_row_size\<close>: \<open>not self._row_size\<close> holds for \<open>None\<close> and for \<open>0\<close>.\<close>

definition check_row_size :: "nat \<Rightarrow> table \<Rightarrow> outcome" where
  "check_row_size n t =
     (case self_row_size t of
        None \<Rightarrow> (None, t\<lparr>self_row_size := Some n\<rparr>)
      | Some row_size \<Rightarrow>
          if row_size = 0 then (None, t\<lparr>self_row_size := Some n\<rparr>)
          else if row_size \<noteq> n then (Some (ArraySizeError row_size n), t)
          else (None, t))"

text \<open>The setters of the per-column arrays.\<close>

definition set_header_align :: "pystr list \<Rightarrow> table \<Rightarrow> outcome" where
  "set_header_align array t =
     and_then (check_row_size (length array) t) (\<lambda>t. (None, t\<lparr>self_header_align := Some array\<rparr>))"

definition set_cols_align :: "pystr list \<Rightarrow> table \<Rightarrow> outcome" where
  "set_cols_align array t =
     and_then (check_row_size (length array) t) (\<lambda>t. (None, t\<lparr>self_align := Some array\<rparr>))"

definition set_cols_valign :: "pystr list \<Rightarrow> table \<Rightarrow> outcome" where
  "set_cols_valign array t =
     and_then (check_row_size (length array) t) (\<lambda>t. (None, t\<lparr>self_valign := Some array\<rparr>))"

definition set_cols_dtype :: "dtype list \<Rightarrow> table \<Rightarrow> outcome" where
  "set_cols_dtype array t =
     and_then (check_row_size (length array) t) (\<lambda>t. (None, t\<lparr>self_dtype := Some array\<rparr>))"

text \<open>
  \<open>UniTable.set_cols_width\<close>, on a list of integers: \<open>reduce(min, array)\<close> raises
  \<open>TypeError\<close> on the empty list.
\<close>

definition set_cols_width :: "int list \<Rightarrow> table \<Rightarrow> outcome" where
  "set_cols_width array t =
     and_then (check_row_size (length array) t)
       (\<lambda>t. if array = [] then (Some TypeError, t)
            else if foldl min (hd array) (tl array) \<le> 0 then (Some (NonPositiveWidth array), t)
            else (None, t\<lparr>self_width := Some array\<rparr>))"

text \<open>\<open>UniTable.set_precision\<close> and \<open>UniTable.set_padding\<close>, on an integer.\<close>

definition set_precision :: "int \<Rightarrow> table \<Rightarrow> outcome" where
  "set_precision width t =
     (if width < 0 then (Some (InvalidPrecision width), t)
      else (None, t\<lparr>self_precision := width\<rparr>))"

definition set_padding :: "int \<Rightarrow> table \<Rightarrow> outcome" where
  "set_padding amount t =
     (if amount < 0 then (Some (InvalidPadding amount), t)
      else (None, t\<lparr>self_pad := amount\<rparr>))"

section \<open>Cell formatting\<close>

text \<open>\<open>UniTable._to_float\<close> on a string.\<close>

definition to_float :: "'f py \<Rightarrow> pystr \<Rightarrow> error + 'f" where
  "to_float py x = (case builtin_float py x of None \<Rightarrow> Inl FallbackToText | Some f \<Rightarrow> Inr f)"

text \<open>The formatters \<open>_fmt_int\<close>, \<open>_fmt_comma_int\<close>, \<open>_fmt_float\<close>, \<open>_fmt_exp\<close>, \<open>_fmt_text\<close>
  and \<open>_fmt_auto\<close>; \<open>n\<close> is the keyword argument of that name.\<close>

definition fmt_int :: "'f py \<Rightarrow> int \<Rightarrow> pystr \<Rightarrow> error + pystr" where
  "fmt_int py n x =
     (case to_float py x of
        Inl e \<Rightarrow> Inl e
      | Inr f \<Rightarrow> (case str_int_round py f of None \<Rightarrow> Inl NumericError | Some s \<Rightarrow> Inr s))"

definition fmt_comma_int :: "'f py \<Rightarrow> int \<Rightarrow> pystr \<Rightarrow> error + pystr" where
  "fmt_comma_int py n x =
     (case to_float py x of
        Inl e \<Rightarrow> Inl e
      | Inr f \<Rightarrow> (case str_int_round_grouped py f of None \<Rightarrow> Inl NumericError | Some s \<Rightarrow> Inr s))"

definition fmt_float :: "'f py \<Rightarrow> int \<Rightarrow> pystr \<Rightarrow> error + pystr" where
  "fmt_float py n x =
     (case to_float py x of Inl e \<Rightarrow> Inl e | Inr f \<Rightarrow> Inr (format_f py n f))"

definition fmt_exp :: "'f py \<Rightarrow> int \<Rightarrow> pystr \<Rightarrow> error + pystr" where
  "fmt_exp py n x =
     (case to_float py x of Inl e \<Rightarrow> Inl e | Inr f \<Rightarrow> Inr (format_e py n f))"

definition fmt_text :: "pystr \<Rightarrow> pystr" where
  "fmt_text x = x"

definition fmt_auto :: "'f py \<Rightarrow> int \<Rightarrow> pystr \<Rightarrow> error + pystr" where
  "fmt_auto py n x =
     (case to_float py x of
        Inl e \<Rightarrow> Inl e
      | Inr f \<Rightarrow>
          if exceeds_1e8 py f then fmt_exp py n x
          else if is_nan py f then Inr (fmt_text x)
          else if is_integral py f then fmt_int py n x
          else fmt_float py n x)"

text \<open>The dictionary \<open>format_map\<close> of \<open>_str\<close>.\<close>

definition format_map :: "'f py \<Rightarrow> pystr \<Rightarrow> (int \<Rightarrow> pystr \<Rightarrow> error + pystr) option" where
  "format_map py d =
     (if d = u ''a'' then Some (fmt_auto py)
      else if d = u ''i'' then Some (fmt_int py)
      else if d = u ''I'' then Some (fmt_comma_int py)
      else if d = u ''f'' then Some (fmt_float py)
      else if d = u ''e'' then Some (fmt_exp py)
      else if d = u ''t'' then Some (\<lambda>n x. Inr (fmt_text x))
      else None)"

text \<open>
  \<open>UniTable._str\<close>: the entry of \<open>_dtype\<close> is read outside the \<open>try\<close>, and only
  \<open>FallbackToText\<close> is caught.
\<close>

definition str_cell :: "'f py \<Rightarrow> table \<Rightarrow> nat \<Rightarrow> pystr \<Rightarrow> error + pystr" where
  "str_cell py t i x =
     (case self_dtype t of
        None \<Rightarrow> Inl AttributeError
      | Some dtypes \<Rightarrow>
          if i < length dtypes then
            (case (case dtypes ! i of
                     Callable f \<Rightarrow> Inr (f x)
                   | Code d \<Rightarrow>
                       (case format_map py d of
                          None \<Rightarrow> Inl KeyError
                        | Some fn \<Rightarrow> fn (self_precision t) x)) of
               Inl e \<Rightarrow> if e = FallbackToText then Inr (fmt_text x) else Inl e
             | Inr s \<Rightarrow> Inr s)
          else Inl IndexError)"

section \<open>Filling the table\<close>

text \<open>\<open>UniTable.header\<close>\<close>

definition header :: "pystr list \<Rightarrow> table \<Rightarrow> outcome" where
  "header array t =
     and_then (check_row_size (length array) t) (\<lambda>t. (None, t\<lparr>self_header := array\<rparr>))"

text \<open>\<open>UniTable.add_row\<close>\<close>

definition add_row :: "'f py \<Rightarrow> pystr list \<Rightarrow> table \<Rightarrow> outcome" where
  "add_row py array t =
     and_then (check_row_size (length array) t)
       (\<lambda>t. case (if self_dtype t = None
                   then (case self_row_size t of
                           None \<Rightarrow> Inl TypeError
                         | Some n \<Rightarrow> Inr (t\<lparr>self_dtype := Some (replicate n (Code (u ''a'')))\<rparr>))
                   else Inr t) of
              Inl e \<Rightarrow> (Some e, t)
            | Inr t1 \<Rightarrow>
                (case collect (map (\<lambda>(i, x). str_cell py t1 i x)
                                 (zip [0..<length array] array)) of
                   Inl e \<Rightarrow> (Some e, t1)
                 | Inr cells \<Rightarrow> (None, t1\<lparr>self_rows := self_rows t1 @ [cells]\<rparr>)))"

text \<open>\<open>UniTable.add_rows\<close> on a list of rows, and \<open>UniTable.set_rows\<close>.\<close>

fun add_each :: "'f py \<Rightarrow> pystr list list \<Rightarrow> table \<Rightarrow> outcome" where
  "add_each py [] t = (None, t)"
| "add_each py (row # rows) t = and_then (add_row py row t) (add_each py rows)"

definition add_rows :: "'f py \<Rightarrow> pystr list list \<Rightarrow> bool \<Rightarrow> table \<Rightarrow> outcome" where
  "add_rows py rows hdr t =
     (if hdr then
        (case rows of
           [] \<Rightarrow> (Some IndexError, t)
         | first # rest \<Rightarrow> and_then (header first t) (add_each py rest))
      else add_each py rows t)"

definition set_rows :: "'f py \<Rightarrow> pystr list list \<Rightarrow> bool \<Rightarrow> table \<Rightarrow> outcome" where
  "set_rows py rows hdr t = add_rows py rows hdr (t\<lparr>self_rows := []\<rparr>)"

text \<open>\<open>UniTable.reset\<close>\<close>

definition reset :: "table \<Rightarrow> table" where
  "reset t = t\<lparr>self_row_size := None, self_header := [], self_rows := [], self_style := u ''light''\<rparr>"

text \<open>
  \<open>UniTable.__init__\<close>. \<open>blank\<close> is the object before the constructor has run: its
  flags are those the constructor sets first, and the fields the constructor assigns
  later hold nothing that is read before.
\<close>

definition blank :: table where
  "blank =
     \<lparr>self_has_border = True, self_has_header = True, self_row_size = None,
      self_header = [], self_rows = [], self_style = [], self_precision = 0,
      self_max_width = 0, self_deco = 0, self_pad = 0,
      self_dtype = None, self_width = None, self_header_align = None,
      self_align = None, self_valign = None,
      self_char_ew = [], self_char_ns = [], self_char_se = [], self_char_sw = [],
      self_char_ne = [], self_char_nw = [], self_char_nse = [], self_char_nsw = [],
      self_char_sew = [], self_char_new = [], self_char_nsew = [], self_char_hew = [],
      self_char_hnse = [], self_char_hnsw = [], self_char_hnsew = []\<rparr>"

definition UniTable ::
  "'f py \<Rightarrow> pystr list list option \<Rightarrow> int \<Rightarrow> pystr \<Rightarrow> int \<Rightarrow> pystr list option \<Rightarrow> outcome" where
  "UniTable py rows max_width style padding alignment =
     and_then (case rows of
                 None \<Rightarrow> (None, (reset blank)\<lparr>self_precision := 3\<rparr>)
               | Some rs \<Rightarrow> add_rows py rs True ((reset blank)\<lparr>self_precision := 3\<rparr>))
       (\<lambda>t. and_then (set_max_width max_width t)
          (\<lambda>t. and_then (set_style style (t\<lparr>self_deco := 15\<rparr>))
             (\<lambda>t. and_then (set_padding padding t)
                (\<lambda>t. case alignment of
                        None \<Rightarrow> (None, t)
                      | Some a \<Rightarrow> set_cols_align a t))))"

section \<open>Column widths\<close>

text \<open>
  \<open>UniTable._len_cell\<close>: the inner loop over the parts of a line between tabs, with the
  length so far, and the outer loop over the lines of the cell.
\<close>

fun len_parts :: "'f py \<Rightarrow> int \<Rightarrow> pystr list \<Rightarrow> int" where
  "len_parts py n [] = n"
| "len_parts py n [part] = n + len py part"
| "len_parts py n (part # p # ps) = len_parts py (((n + len py part) div 8 + 1) * 8) (p # ps)"

definition len_cell :: "'f py \<Rightarrow> pystr \<Rightarrow> int" where
  "len_cell py cell =
     foldl (\<lambda>maxi line. max maxi (len_parts py 0 (split_on 9 line))) 0 (split_on 10 cell)"

text \<open>
  The first half of \<open>UniTable._compute_cols_width\<close>: the widest cell of each column. The
  assignment to \<open>maxi[i]\<close> raises \<open>IndexError\<close> when the column is new, and the handler
  appends.
\<close>

definition widen :: "'f py \<Rightarrow> int list \<Rightarrow> pystr \<times> nat \<Rightarrow> int list" where
  "widen py maxi ci =
     (case ci of
        (cell, i) \<Rightarrow>
          if i < length maxi then maxi[i := max (maxi ! i) (len_cell py cell)]
          else maxi @ [len_cell py cell])"

definition natural_widths :: "'f py \<Rightarrow> table \<Rightarrow> int list" where
  "natural_widths py t =
     foldl (\<lambda>maxi row. foldl (widen py) maxi (zip row [0..<length row]))
       (if self_header t \<noteq> [] then map (len_cell py) (self_header t) else [])
       (self_rows t)"

text \<open>
  The loop that hands out the available width one unit at a time. It returns no value
  when it does not end.
\<close>

partial_function (option) distribute ::
  "int list \<Rightarrow> int \<Rightarrow> int list \<Rightarrow> nat \<Rightarrow> (error + int list) option" where
  "distribute maxi available_width newmaxi i =
     (if available_width > 0 then
        (if i < length newmaxi \<and> i < length maxi then
           (if newmaxi ! i < maxi ! i
            then distribute maxi (available_width - 1) (newmaxi[i := newmaxi ! i + 1])
                   ((i + 1) mod length maxi)
            else distribute maxi available_width newmaxi ((i + 1) mod length maxi))
         else Some (Inl IndexError))
      else Some (Inr newmaxi))"

declare distribute.simps [code]

text \<open>\<open>UniTable._compute_cols_width\<close>\<close>

definition compute_cols_width :: "'f py \<Rightarrow> table \<Rightarrow> outcome option" where
  "compute_cols_width py t =
     (if self_width t \<noteq> None then Some (None, t)
      else
        (let maxi = natural_widths py t;
             ncols = int (length maxi);
             content_width = sum_list maxi;
             deco_width = 3 * (ncols - 1) + (if self_has_border t then 4 else 0)
         in if self_max_width t \<noteq> 0 \<and> content_width + deco_width > self_max_width t then
              (if self_max_width t < ncols + deco_width
               then Some (Some (WidthTooLow (self_max_width t) (ncols + deco_width)), t)
               else
                 (case distribute maxi (self_max_width t - deco_width)
                         (replicate (length maxi) 0) 0 of
                    None \<Rightarrow> None
                  | Some (Inl e) \<Rightarrow> Some (Some e, t)
                  | Some (Inr newmaxi) \<Rightarrow> Some (None, t\<lparr>self_width := Some newmaxi\<rparr>)))
            else Some (None, t\<lparr>self_width := Some maxi\<rparr>)))"

text \<open>\<open>UniTable._check_align\<close>; \<open>["c"] * None\<close> raises \<open>TypeError\<close>.\<close>

definition check_align :: "table \<Rightarrow> outcome" where
  "check_align t =
     (if self_header_align t \<noteq> None \<and> self_align t \<noteq> None \<and> self_valign t \<noteq> None
      then (None, t)
      else
        (case self_row_size t of
           None \<Rightarrow> (Some TypeError, t)
         | Some n \<Rightarrow>
             (None,
              t\<lparr>self_header_align :=
                   (if self_header_align t = None then Some (replicate n (u ''c''))
                    else self_header_align t),
                 self_align :=
                   (if self_align t = None then Some (replicate n (u ''l''))
                    else self_align t),
                 self_valign :=
                   (if self_valign t = None then Some (replicate n (u ''t''))
                    else self_valign t)\<rparr>)))"

section \<open>Drawing\<close>

text \<open>\<open>UniTable.has_vlines\<close> and \<open>UniTable.has_hlines\<close>\<close>

definition has_vlines :: "table \<Rightarrow> bool" where
  "has_vlines t \<longleftrightarrow> (self_deco t AND 8) > 0"

definition has_hlines :: "table \<Rightarrow> bool" where
  "has_hlines t \<longleftrightarrow> (self_deco t AND 4) > 0"

text \<open>\<open>UniTable._build_hline\<close>, and \<open>_hline\<close> and \<open>_hline_header\<close> that call it.\<close>

definition build_hline :: "table \<Rightarrow> bool \<Rightarrow> location \<Rightarrow> error + pystr" where
  "build_hline t is_header location =
     (if self_style t = u ''none'' then Inr []
      else
        (let horiz_char = (if is_header then self_char_hew t else self_char_ew t);
             lmr = (case location of
                      TOP \<Rightarrow> (self_char_se t, self_char_sew t, self_char_sw t)
                    | MIDDLE \<Rightarrow>
                        if is_header
                        then (self_char_hnse t, self_char_hnsew t, self_char_hnsw t)
                        else (self_char_nse t, self_char_nsew t, self_char_nsw t)
                    | BOTTOM \<Rightarrow> (self_char_ne t, self_char_new t, self_char_nw t));
             left = fst lmr; mid = fst (snd lmr); right = snd (snd lmr);
             cell_sep = times horiz_char (self_pad t)
                        @ (if has_vlines t then mid else horiz_char)
                        @ times horiz_char (self_pad t)
         in case self_width t of
              None \<Rightarrow> Inl AttributeError
            | Some widths \<Rightarrow>
                (let hline = join cell_sep (map (times horiz_char) widths)
                 in if self_has_border t
                    then Inr (left @ times horiz_char (self_pad t) @ hline
                              @ times horiz_char (self_pad t) @ right @ [10])
                    else Inr (hline @ [10]))))"

definition hline :: "table \<Rightarrow> location \<Rightarrow> error + pystr" where
  "hline t location = build_hline t False location"

definition hline_header :: "table \<Rightarrow> location \<Rightarrow> error + pystr" where
  "hline_header t location = build_hline t True location"

text \<open>
  \<open>UniTable._splitit\<close>. First each cell is split at its newlines and each part wrapped
  to the width of the column.
\<close>

definition wrap_cell :: "'f py \<Rightarrow> pystr \<Rightarrow> int \<Rightarrow> error + pystr list" where
  "wrap_cell py cell width =
     (case collect (map (\<lambda>c. if is_blank c then Inr [[]]
                              else (case textwrapper py c width of
                                      None \<Rightarrow> Inl WrapError
                                    | Some ls \<Rightarrow> Inr ls))
                        (split_on 10 cell)) of
        Inl e \<Rightarrow> Inl e
      | Inr arrays \<Rightarrow> Inr (concat arrays))"

text \<open>
  Then each cell is filled up to the height of the tallest. For the alignment \<open>m\<close> the
  source calls \<open>self._vislen.len\<close> on the list of lines, and the regular expression
  raises \<open>TypeError\<close> on a list.
\<close>

definition valign_cell :: "bool \<Rightarrow> nat \<Rightarrow> pystr list \<times> pystr \<Rightarrow> error + pystr list" where
  "valign_cell isheader max_cell_lines cv =
     (case cv of
        (cell, valign0) \<Rightarrow>
          (let valign = (if isheader then u ''t'' else valign0)
           in if valign = u ''m'' then Inl TypeError
              else if valign = u ''b''
              then Inr (replicate (max_cell_lines - length cell) [] @ cell)
              else Inr (cell @ replicate (max_cell_lines - length cell) [])))"

definition splitit :: "'f py \<Rightarrow> table \<Rightarrow> pystr list \<Rightarrow> bool \<Rightarrow> error + pystr list list" where
  "splitit py t line isheader =
     (case self_width t of
        None \<Rightarrow> Inl AttributeError
      | Some widths \<Rightarrow>
          (case collect (map (\<lambda>(cell, width). wrap_cell py cell width) (zip line widths)) of
             Inl e \<Rightarrow> Inl e
           | Inr line_wrapped \<Rightarrow>
               if line_wrapped = [] then Inl TypeError
               else
                 (let max_cell_lines =
                        foldl max (length (hd line_wrapped)) (map length (tl line_wrapped))
                  in case self_valign t of
                       None \<Rightarrow> Inl AttributeError
                     | Some valigns \<Rightarrow>
                         (case collect (map (valign_cell isheader max_cell_lines)
                                          (zip line_wrapped valigns)) of
                            Inl e \<Rightarrow> Inl e
                          | Inr aligned \<Rightarrow>
                              Inr (process_lines
                                     (aligned @ drop (length valigns) line_wrapped))))))"

text \<open>
  \<open>int(fill / 2)\<close> and \<open>int(fill / 2 + fill % 2)\<close> of \<open>_draw_line\<close>: the division is
  true division and \<open>int\<close> truncates towards zero.
\<close>

definition trunc_half :: "int \<Rightarrow> int" where
  "trunc_half n = (if n \<ge> 0 then n div 2 else - ((- n) div 2))"

definition half_left :: "int \<Rightarrow> int" where
  "half_left fill = trunc_half fill"

definition half_right :: "int \<Rightarrow> int" where
  "half_right fill = trunc_half (fill + 2 * (fill mod 2))"

text \<open>
  \<open>UniTable._draw_line\<close>. \<open>draw_cell\<close> is the body of the loop over the cells for the
  physical line \<open>i\<close>, \<open>k\<close> being the number of cells drawn before; \<open>draw_phys_line\<close>
  is the body of the loop over the physical lines.
\<close>

definition draw_cell ::
  "'f py \<Rightarrow> table \<Rightarrow> bool \<Rightarrow> nat \<Rightarrow> nat \<Rightarrow> nat \<times> pystr list \<times> int \<times> pystr \<Rightarrow> error + pystr" where
  "draw_cell py t isheader ncells i kcwa =
     (case kcwa of
        (k, cell, width, align0) \<Rightarrow>
          if i < length cell then
            (let cell_line = cell ! i;
                 fill = width - len py cell_line
             in case (if isheader
                      then (case self_header_align t of
                              None \<Rightarrow> Inl AttributeError
                            | Some ha \<Rightarrow> if k < length ha then Inr (ha ! k) else Inl IndexError)
                      else Inr align0) of
                  Inl e \<Rightarrow> Inl e
                | Inr align \<Rightarrow>
                    Inr ((if align = u ''r'' then times [32] fill @ cell_line
                          else if align = u ''c''
                          then times [32] (half_left fill) @ cell_line
                               @ times [32] (half_right fill)
                          else cell_line @ times [32] fill)
                         @ (if k + 1 < ncells
                            then times [32] (self_pad t)
                                 @ (if has_vlines t then self_char_ns t else [32])
                                 @ times [32] (self_pad t)
                            else [])))
          else Inl IndexError)"

definition draw_phys_line ::
  "'f py \<Rightarrow> table \<Rightarrow> bool \<Rightarrow> pystr list list \<Rightarrow> int list \<Rightarrow> pystr list \<Rightarrow> nat \<Rightarrow> error + pystr" where
  "draw_phys_line py t isheader line widths aligns i =
     (case collect (map (draw_cell py t isheader (length line) i)
                      (zip [0..<length line] (zip line (zip widths aligns)))) of
        Inl e \<Rightarrow> Inl e
      | Inr cells \<Rightarrow>
          Inr ((if self_has_border t then self_char_ns t @ times [32] (self_pad t) else [])
               @ concat cells
               @ (if self_has_border t then times [32] (self_pad t) @ self_char_ns t else [])
               @ [10]))"

definition draw_line :: "'f py \<Rightarrow> table \<Rightarrow> pystr list \<Rightarrow> bool \<Rightarrow> error + pystr" where
  "draw_line py t line0 isheader =
     (case splitit py t line0 isheader of
        Inl e \<Rightarrow> Inl e
      | Inr line \<Rightarrow>
          (case line of
             [] \<Rightarrow> Inl IndexError
           | first # _ \<Rightarrow>
               (case self_width t of
                  None \<Rightarrow> Inl AttributeError
                | Some widths \<Rightarrow>
                    (case self_align t of
                       None \<Rightarrow> Inl AttributeError
                     | Some aligns \<Rightarrow>
                         (case collect (map (draw_phys_line py t isheader line widths aligns)
                                          [0..<length first]) of
                            Inl e \<Rightarrow> Inl e
                          | Inr out \<Rightarrow> Inr (concat out))))))"

text \<open>
  \<open>UniTable.draw\<close>. The pieces of \<open>out\<close> are computed in the order of the source, so the
  first of them that raises is the error of the call. The result is \<open>None\<close> for a table
  with neither header nor rows, and there is no result when the width loop does not end.
\<close>

definition draw_pieces :: "'f py \<Rightarrow> table \<Rightarrow> (error + pystr) list" where
  "draw_pieces py t =
     (if self_has_border t then [hline t TOP] else [])
     @ (if self_header t \<noteq> []
        then [draw_line py t (self_header t) True]
             @ (if self_has_header t then [hline_header t MIDDLE] else [])
        else [])
     @ concat (map (\<lambda>(num, row).
                      [draw_line py t row False]
                      @ (if has_hlines t \<and> num < length (self_rows t)
                         then [hline t MIDDLE] else []))
                 (zip [1..<Suc (length (self_rows t))] (self_rows t)))
     @ (if self_has_border t then [hline t BOTTOM] else [])"

definition draw :: "'f py \<Rightarrow> table \<Rightarrow> ((error + pystr option) \<times> table) option" where
  "draw py t =
     (if self_header t = [] \<and> self_rows t = [] then Some (Inr None, t)
      else
        (case compute_cols_width py t of
           None \<Rightarrow> None
         | Some (Some e, t1) \<Rightarrow> Some (Inl e, t1)
         | Some (None, t1) \<Rightarrow>
             (case check_align t1 of
                (Some e, t2) \<Rightarrow> Some (Inl e, t2)
              | (None, t2) \<Rightarrow>
                  (case collect (draw_pieces py t2) of
                     Inl e \<Rightarrow> Some (Inl e, t2)
                   | Inr out \<Rightarrow> Some (Inr (Some (butlast (concat out))), t2)))))"

section \<open>A reference instance of the imported functions\<close>

text \<open>
  An instance of the imported functions for evaluating the model on ASCII text.
  \<open>ref_wcswidth\<close> follows \<open>wcwidth.wcswidth\<close> on code points below 128: \<open>-1\<close> when the
  text holds a control character, else the number of characters other than NUL.
\<close>

definition ref_wcswidth :: "pystr \<Rightarrow> int" where
  "ref_wcswidth s =
     (if list_ex (\<lambda>c. (0 < c \<and> c < 32) \<or> (127 \<le> c \<and> c < 160)) s then - 1
      else int (length (filter (\<lambda>c. c \<noteq> 0) s)))"

text \<open>
  \<open>ref_textwrap\<close> follows \<open>textwrap.wrap\<close> with its default options on words separated
  by single blanks and without hyphens: the words are put on a line as long as the line,
  counted with \<open>len\<close>, does not exceed the width; a word longer than the width is cut,
  its first piece filling the line that is open. The measure is the number of characters
  of what is left to place.
\<close>

function fill_lines :: "nat \<Rightarrow> pystr \<Rightarrow> pystr list \<Rightarrow> pystr list" where
  "fill_lines w cur [] = (if cur = [] then [] else [cur])"
| "fill_lines w cur (x # xs) =
     (if w = 0 then []
      else if cur = [] then
        (if length x \<le> w then fill_lines w x xs
         else take w x # fill_lines w [] (drop w x # xs))
      else if length cur + 1 + length x \<le> w then fill_lines w (cur @ [32] @ x) xs
      else if length x > w \<and> length cur + 1 < w then
        (cur @ [32] @ take (w - (length cur + 1)) x)
          # fill_lines w [] (drop (w - (length cur + 1)) x # xs)
      else cur # fill_lines w [] (x # xs))"
  by pat_completeness auto
termination
  by (relation "measures [\<lambda>(w, cur, xs). sum_list (map length xs) + length xs,
                          \<lambda>(w, cur, xs). length cur]") auto

definition ref_textwrap :: "pystr \<Rightarrow> int \<Rightarrow> pystr list option" where
  "ref_textwrap txt width =
     (if width \<le> 0 then None else Some (fill_lines (nat width) [] (split_ws txt)))"

text \<open>
  The float operations of the instance read a string of decimal digits as the integer it
  denotes and reject every other string.
\<close>

definition digits_value :: "pystr \<Rightarrow> int option" where
  "digits_value s =
     (if s \<noteq> [] \<and> list_all (\<lambda>c. 48 \<le> c \<and> c \<le> 57) s
      then Some (foldl (\<lambda>a c. 10 * a + (int c - 48)) 0 s)
      else None)"

fun digits_of :: "nat \<Rightarrow> nat \<Rightarrow> pystr" where
  "digits_of 0 n = []"
| "digits_of (Suc fuel) n =
     (if n < 10 then [48 + n] else digits_of fuel (n div 10) @ [48 + n mod 10])"

definition str_of_int :: "int \<Rightarrow> pystr" where
  "str_of_int i =
     (if i < 0 then 45 # digits_of (Suc (nat (- i))) (nat (- i))
      else digits_of (Suc (nat i)) (nat i))"

definition ref_py :: "int py" where
  "ref_py =
     \<lparr>wcswidth = ref_wcswidth,
      textwrapper = ref_textwrap,
      builtin_float = digits_value,
      exceeds_1e8 = (\<lambda>f. \<bar>f\<bar> > 100000000),
      is_nan = (\<lambda>f. False),
      is_integral = (\<lambda>f. True),
      str_int_round = (\<lambda>f. Some (str_of_int f)),
      str_int_round_grouped = (\<lambda>f. Some (str_of_int f)),
      format_f = (\<lambda>n f. str_of_int f),
      format_e = (\<lambda>n f. str_of_int f)\<rparr>"

section \<open>The scenarios of the properties\<close>

text \<open>
  Scenario A: a table made with the defaults of the constructor, the four glyphs
  \<open>-\<close>, \<open>|\<close>, \<open>+\<close>, \<open>-\<close> for its lines, the header \<open>A\<close>, \<open>B\<close> and the row \<open>1\<close>, \<open>2\<close>.
  \<open>scenario_A_builtins\<close> says what the scenario needs of the imported functions: each
  of the four cells is one column wide and wraps to itself, and \<open>float\<close> reads \<open>1\<close> and
  \<open>2\<close> as whole numbers below \<open>1e8\<close> that \<open>str(int(round(f)))\<close> writes back as they
  were. \<open>scenario_A_table\<close> is the table the calls build and \<open>scenario_A_drawn\<close> the
  table after \<open>draw\<close>.
\<close>

definition scenario_A_builtins :: "'f py \<Rightarrow> bool" where
  "scenario_A_builtins py \<longleftrightarrow>
     (\<forall>c\<in>{65, 66, 49, 50}. wcswidth py [c] = 1 \<and> textwrapper py [c] 1 = Some [[c]]) \<and>
     (\<forall>c\<in>{49, 50}. \<exists>f. builtin_float py [c] = Some f \<and> \<not> exceeds_1e8 py f \<and>
         \<not> is_nan py f \<and> is_integral py f \<and> str_int_round py f = Some [c])"

definition scenario_A :: "'f py \<Rightarrow> outcome" where
  "scenario_A py =
     and_then (UniTable py None 80 (u ''light'') 1 None)
       (\<lambda>t. and_then (set_table_lines [u ''-'', u ''|'', u ''+'', u ''-''] t)
          (\<lambda>t. and_then (header [u ''A'', u ''B''] t)
             (add_row py [u ''1'', u ''2''])))"

definition scenario_A_table :: table where
  "scenario_A_table =
     \<lparr>self_has_border = True, self_has_header = True, self_row_size = Some 2,
      self_header = [[65], [66]], self_rows = [[[49], [50]]], self_style = u ''light'',
      self_precision = 3, self_max_width = 80, self_deco = 15, self_pad = 1,
      self_dtype = Some [Code [97], Code [97]], self_width = None,
      self_header_align = None, self_align = None, self_valign = None,
      self_char_ew = [45], self_char_ns = [124], self_char_se = [43], self_char_sw = [43],
      self_char_ne = [43], self_char_nw = [43], self_char_nse = [43], self_char_nsw = [43],
      self_char_sew = [43], self_char_new = [43], self_char_nsew = [43], self_char_hew = [45],
      self_char_hnse = [43], self_char_hnsw = [43], self_char_hnsew = [43]\<rparr>"

definition scenario_A_drawn :: table where
  "scenario_A_drawn =
     scenario_A_table\<lparr>self_width := Some [1, 1],
       self_header_align := Some [[99], [99]], self_align := Some [[108], [108]],
       self_valign := Some [[116], [116]]\<rparr>"

text \<open>
  A table made with the defaults of the constructor, and the same table given an empty
  row first and then a header of two cells.
\<close>

definition default_table :: table where
  "default_table = snd (UniTable ref_py None 80 (u ''light'') 1 None)"

definition empty_row_first :: "'f py \<Rightarrow> outcome" where
  "empty_row_first py =
     and_then (UniTable py None 80 (u ''light'') 1 None)
       (\<lambda>t. and_then (add_row py [] t) (header [u ''A'', u ''B'']))"

text \<open>
  Scenario C: two columns under a maximum width of 5. \<open>empty_column\<close> is a table of two
  columns, the second of them empty, under a maximum width of 8, and
  \<open>empty_column_table\<close> the table its calls build. \<open>columns\<close> and \<open>overhead\<close> name the
  number of columns and the width of the decorations that \<open>_compute_cols_width\<close> computes
  (\<open>ncols\<close> and \<open>deco_width\<close>).
\<close>

definition scenario_C :: "'f py \<Rightarrow> outcome" where
  "scenario_C py =
     and_then (UniTable py None 5 (u ''ascii'') 1 None) (header [u ''a'', u ''b''])"

definition empty_column :: "'f py \<Rightarrow> outcome" where
  "empty_column py =
     and_then (UniTable py None 8 (u ''ascii'') 1 None) (header [u ''a'', []])"

definition empty_column_table :: table where
  "empty_column_table =
     \<lparr>self_has_border = True, self_has_header = True, self_row_size = Some 2,
      self_header = [[97], []], self_rows = [], self_style = u ''ascii'',
      self_precision = 3, self_max_width = 8, self_deco = 15, self_pad = 1,
      self_dtype = None, self_width = None,
      self_header_align = None, self_align = None, self_valign = None,
      self_char_ew = [45], self_char_ns = [124], self_char_se = [43], self_char_sw = [43],
      self_char_ne = [43], self_char_nw = [43], self_char_nse = [43], self_char_nsw = [43],
      self_char_sew = [43], self_char_new = [43], self_char_nsew = [43], self_char_hew = [45],
      self_char_hnse = [43], self_char_hnsw = [43], self_char_hnsew = [43]\<rparr>"

definition columns :: "'f py \<Rightarrow> table \<Rightarrow> int" where
  "columns py t = int (length (natural_widths py t))"

definition overhead :: "'f py \<Rightarrow> table \<Rightarrow> int" where
  "overhead py t = 3 * (columns py t - 1) + (if self_has_border t then 4 else 0)"

text \<open>
  A table of one text column with the row \<open>a\<close>: \<open>one_row_table\<close> is the table the calls
  build, \<open>one_row_drawn\<close> the table after \<open>draw\<close>, and \<open>two_rows_table\<close> the table after
  the row \<open>a b\<close> is added to that.
\<close>

definition one_row :: "'f py \<Rightarrow> outcome" where
  "one_row py =
     and_then (UniTable py None 80 (u ''ascii'') 1 None)
       (\<lambda>t. and_then (set_cols_dtype [Code (u ''t'')] t) (add_row py [u ''a'']))"

definition one_row_table :: table where
  "one_row_table =
     \<lparr>self_has_border = True, self_has_header = True, self_row_size = Some 1,
      self_header = [], self_rows = [[[97]]], self_style = u ''ascii'',
      self_precision = 3, self_max_width = 80, self_deco = 15, self_pad = 1,
      self_dtype = Some [Code [116]], self_width = None,
      self_header_align = None, self_align = None, self_valign = None,
      self_char_ew = [45], self_char_ns = [124], self_char_se = [43], self_char_sw = [43],
      self_char_ne = [43], self_char_nw = [43], self_char_nse = [43], self_char_nsw = [43],
      self_char_sew = [43], self_char_new = [43], self_char_nsew = [43], self_char_hew = [45],
      self_char_hnse = [43], self_char_hnsw = [43], self_char_hnsew = [43]\<rparr>"

definition one_row_drawn :: table where
  "one_row_drawn =
     one_row_table\<lparr>self_width := Some [1], self_header_align := Some [[99]],
       self_align := Some [[108]], self_valign := Some [[116]]\<rparr>"

definition two_rows_table :: table where
  "two_rows_table = one_row_drawn\<lparr>self_rows := [[[97]], [[97, 32, 98]]]\<rparr>"

subsection \<open>Texts that differ by inserted escape sequences\<close>

text \<open>
  \<open>is_escape e\<close>: the whole of \<open>e\<close> is one match of the pattern \<open>ansi_escape\<close>.
  \<open>styled t t'\<close>: \<open>t'\<close> is \<open>t\<close> with such matches inserted between its characters.
\<close>

definition is_escape :: "pystr \<Rightarrow> bool" where
  "is_escape e \<longleftrightarrow> ansi_escape_match e = Some (e, [])"

inductive styled :: "pystr \<Rightarrow> pystr \<Rightarrow> bool" where
  plain: "styled [] []"
| keep: "styled t t' \<Longrightarrow> styled (c # t) (c # t')"
| insert: "is_escape e \<Longrightarrow> styled t t' \<Longrightarrow> styled t (e @ t')"

text \<open>
  A cell in bold, \<open>ESC [ 1 m\<close> before the text \<open>abc defg\<close>, alone in a table of the
  style \<open>ascii\<close>, and the same table with the cell left plain.
\<close>

definition styled_cell :: pystr where
  "styled_cell = [27, 91, 49, 109] @ u ''abc defg''"

definition styled_cell_table :: table where
  "styled_cell_table =
     \<lparr>self_has_border = True, self_has_header = True, self_row_size = Some 1,
      self_header = [], self_rows = [[styled_cell]], self_style = u ''ascii'',
      self_precision = 3, self_max_width = 80, self_deco = 15, self_pad = 1,
      self_dtype = Some [Code [97]], self_width = None,
      self_header_align = None, self_align = None, self_valign = None,
      self_char_ew = [45], self_char_ns = [124], self_char_se = [43], self_char_sw = [43],
      self_char_ne = [43], self_char_nw = [43], self_char_nse = [43], self_char_nsw = [43],
      self_char_sew = [43], self_char_new = [43], self_char_nsew = [43], self_char_hew = [45],
      self_char_hnse = [43], self_char_hnsw = [43], self_char_hnsew = [43]\<rparr>"

definition plain_cell_table :: table where
  "plain_cell_table = styled_cell_table\<lparr>self_rows := [[u ''abc defg'']]\<rparr>"

section \<open>Properties of the escape matchers\<close>

lemma dropWhile_append_nonempty:
  "dropWhile P s \<noteq> [] \<Longrightarrow> dropWhile P (s @ t) = dropWhile P s @ t"
  by (induction s) auto

lemma takeWhile_append_nonempty:
  "dropWhile P s \<noteq> [] \<Longrightarrow> takeWhile P (s @ t) = takeWhile P s"
  by (induction s) auto

lemma dropWhile_append_stop:
  "\<not> P x \<Longrightarrow> dropWhile P (s @ x # t) = dropWhile P s @ x # t"
  by (induction s) auto

lemma csi_body_append:
  "csi_body s = Some (b, r) \<Longrightarrow> csi_body (s @ t) = Some (b, r @ t)"
proof -
  assume a: "csi_body s = Some (b, r)"
  let ?r1 = "dropWhile is_param s"
  let ?r2 = "dropWhile is_inter ?r1"
  from a obtain f where f: "?r2 = f # r" "is_final f"
    and b: "b = takeWhile is_param s @ takeWhile is_inter ?r1 @ [f]"
    by (auto simp: csi_body_def Let_def split: list.splits if_splits)
  from f have r2: "?r2 \<noteq> []" by simp
  then have r1: "?r1 \<noteq> []" by (cases ?r1) simp_all
  have d1: "dropWhile is_param (s @ t) = ?r1 @ t"
    using r1 by (rule dropWhile_append_nonempty)
  have t1: "takeWhile is_param (s @ t) = takeWhile is_param s"
    using r1 by (rule takeWhile_append_nonempty)
  have d2: "dropWhile is_inter (?r1 @ t) = ?r2 @ t"
    using r2 by (rule dropWhile_append_nonempty)
  have t2: "takeWhile is_inter (?r1 @ t) = takeWhile is_inter ?r1"
    using r2 by (rule takeWhile_append_nonempty)
  show ?thesis
    using f b by (simp add: csi_body_def Let_def d1 t1 d2 t2)
qed

lemma csi_body_chars:
  "csi_body s = Some (b, r) \<Longrightarrow> s = b @ r \<and> (\<forall>c\<in>set b. is_param c \<or> is_inter c \<or> is_final c)"
proof -
  assume a: "csi_body s = Some (b, r)"
  let ?r1 = "dropWhile is_param s"
  let ?r2 = "dropWhile is_inter ?r1"
  from a obtain f where f: "?r2 = f # r" "is_final f"
    and b: "b = takeWhile is_param s @ takeWhile is_inter ?r1 @ [f]"
    by (auto simp: csi_body_def Let_def split: list.splits if_splits)
  have "s = takeWhile is_param s @ takeWhile is_inter ?r1 @ ?r2"
    by simp
  then have "s = b @ r" using f b by simp
  moreover have "\<forall>c\<in>set b. is_param c \<or> is_inter c \<or> is_final c"
    using b f by (auto dest: set_takeWhileD)
  ultimately show ?thesis by simp
qed

lemma csi_body_esc_None:
  "csi_body s = None \<Longrightarrow> csi_body (s @ 27 # t) = None"
proof -
  assume a: "csi_body s = None"
  let ?r1 = "dropWhile is_param s"
  let ?r2 = "dropWhile is_inter ?r1"
  have n: "\<not> is_param 27" "\<not> is_inter 27" "\<not> is_final 27"
    by (simp_all add: is_param_def is_inter_def is_final_def)
  have d1: "dropWhile is_param (s @ 27 # t) = ?r1 @ 27 # t"
    using n(1) by (rule dropWhile_append_stop)
  have d2: "dropWhile is_inter (?r1 @ 27 # t) = ?r2 @ 27 # t"
    using n(2) by (rule dropWhile_append_stop)
  have e: "csi_body (s @ 27 # t) =
      (case ?r2 @ 27 # t of [] \<Rightarrow> None
       | f # r3 \<Rightarrow> if is_final f
           then Some (takeWhile is_param (s @ 27 # t) @ takeWhile is_inter (?r1 @ 27 # t) @ [f], r3)
           else None)"
    by (simp add: csi_body_def Let_def d1 d2)
  show ?thesis
  proof (cases ?r2)
    case Nil
    show ?thesis unfolding e Nil using n by simp
  next
    case (Cons f r3)
    with a have "\<not> is_final f" by (auto simp: csi_body_def Let_def split: if_splits)
    then show ?thesis unfolding e Cons by simp
  qed
qed

lemma not_body_27: "\<not> is_param 27" "\<not> is_inter 27" "\<not> is_final 27" "\<not> is_fe 27"
  by (simp_all add: is_param_def is_inter_def is_final_def is_fe_def)

lemma reset_ahead_no_esc: "27 \<notin> set s \<Longrightarrow> \<not> reset_ahead s"
  by (induction s) (auto simp: ansi_norm_def)

lemma nr_escape_form:
  assumes "nr_escape e"
  obtains b where "e = 27 # 91 # b" "take 2 b \<noteq> [48, 109]" "csi_body b = Some (b, [])"
proof -
  from assms have m: "non_reset_match e = Some (e, [])" by (simp add: nr_escape_def)
  then obtain x y s where e: "e = x # y # s"
    by (cases e rule: non_reset_match.cases) auto
  with m have "x = 27" "y = 91" "take 2 s \<noteq> [48, 109]" "csi_body s = Some (s, [])"
    by (auto split: if_splits option.splits)
  with e show ?thesis using that by blast
qed

lemma body_chars:
  assumes "csi_body b = Some (b, [])"
  shows "27 \<notin> set b" "10 \<notin> set b" "b \<noteq> []"
proof -
  from csi_body_chars[OF assms]
  have c: "\<forall>c\<in>set b. is_param c \<or> is_inter c \<or> is_final c" by simp
  show "27 \<notin> set b" using c not_body_27 by blast
  show "10 \<notin> set b" using c by (auto simp: is_param_def is_inter_def is_final_def)
  show "b \<noteq> []" using assms by (auto simp: csi_body_def)
qed


lemma reset_ahead_append_nr:
  assumes "nr_escape e"
  shows "reset_ahead (r @ e) = reset_ahead r"
proof -
  from assms obtain b where e: "e = 27 # 91 # b" and nz: "take 2 b \<noteq> [48, 109]"
    and cb: "csi_body b = Some (b, [])" by (rule nr_escape_form)
  have b27: "27 \<notin> set b" using cb by (rule body_chars)
  have base: "\<not> reset_ahead e"
  proof -
    have "take 4 e \<noteq> ansi_norm" using nz by (cases b; cases "tl b") (auto simp: e ansi_norm_def)
    moreover have "\<not> reset_ahead (91 # b)"
      by (rule reset_ahead_no_esc) (use b27 in simp)
    ultimately show ?thesis by (simp add: e)
  qed
  show ?thesis
  proof (induction r)
    case Nil
    then show ?case using base by simp
  next
    case (Cons c cs)
    have "(take 4 (c # cs @ e) = ansi_norm) = (take 4 (c # cs) = ansi_norm)"
    proof (cases cs)
      case Nil
      then show ?thesis by (simp add: e ansi_norm_def)
    next
      case (Cons c2 cs2)
      note C2 = this
      show ?thesis
      proof (cases cs2)
        case Nil
        then show ?thesis using C2 by (simp add: e ansi_norm_def)
      next
        case (Cons c3 cs3)
        then show ?thesis using C2 by (cases cs3) (auto simp: e ansi_norm_def)
      qed
    qed
    then show ?case using Cons by simp
  qed
qed

lemma take2_append_esc:
  "(take 2 (s @ 27 # t) = [48, 109::nat]) = (take 2 s = [48, 109])"
  by (cases s; cases "tl s") auto

lemma non_reset_match_append_nr:
  assumes "nr_escape e"
  shows "non_reset_match (c # cs @ e) =
         (case non_reset_match (c # cs) of None \<Rightarrow> None | Some (m, r) \<Rightarrow> Some (m, r @ e))"
proof -
  from assms obtain b where e: "e = 27 # 91 # b" by (rule nr_escape_form)
  show ?thesis
  proof (cases cs)
    case Nil
    then show ?thesis by (simp add: e)
  next
    case (Cons d s)
    have t2: "(take 2 (s @ e) = [48, 109]) = (take 2 s = [48, 109])"
      unfolding e by (rule take2_append_esc)
    show ?thesis
    proof (cases "csi_body s")
      case None
      then have "csi_body (s @ e) = None" unfolding e by (rule csi_body_esc_None)
      then show ?thesis using None Cons by (simp add: t2 del: take_append)
    next
      case (Some p)
      obtain m r where p: "p = (m, r)" by (cases p)
      with Some have "csi_body (s @ e) = Some (m, r @ e)" by (simp add: csi_body_append)
      then show ?thesis using Some p Cons
        by (simp add: t2 reset_ahead_append_nr[OF assms] del: take_append)
    qed
  qed
qed

lemma findall_nr_single:
  assumes "nr_escape e"
  shows "findall_nr e = [e]"
proof -
  from assms obtain b where e: "e = 27 # 91 # b" by (rule nr_escape_form)
  from assms have "non_reset_match (27 # 91 # b) = Some (27 # 91 # b, [])"
    by (simp add: nr_escape_def e)
  then show ?thesis unfolding e by (simp del: non_reset_match.simps)
qed

lemma findall_nr_append_nr:
  assumes "nr_escape e"
  shows "findall_nr (x @ e) = findall_nr x @ [e]"
proof (induction x rule: findall_nr.induct)
  case 1
  then show ?case using findall_nr_single[OF assms] by simp
next
  case (2 c cs)
  show ?case
  proof (cases "non_reset_match (c # cs)")
    case None
    then have "non_reset_match (c # cs @ e) = None"
      by (simp add: non_reset_match_append_nr[OF assms] del: non_reset_match.simps)
    then have "findall_nr ((c # cs) @ e) = findall_nr (cs @ e)"
      by (simp del: non_reset_match.simps)
    then show ?thesis using 2(1)[OF None] None by (simp del: non_reset_match.simps)
  next
    case (Some p)
    obtain m r where p: "p = (m, r)" by (cases p)
    with Some have "non_reset_match (c # cs @ e) = Some (m, r @ e)"
      by (simp add: non_reset_match_append_nr[OF assms] del: non_reset_match.simps)
    then have "findall_nr ((c # cs) @ e) = m # findall_nr (r @ e)"
      by (simp del: non_reset_match.simps)
    then show ?thesis using 2(2)[OF Some[unfolded p] refl] Some p
      by (simp del: non_reset_match.simps)
  qed
qed

section \<open>Properties of the continuity repair\<close>

lemma repair_line_eq:
  "repair_line un l =
     (un @ l @ (if concat (findall_nr (un @ l)) \<noteq> [] then ansi_norm else []),
      concat (findall_nr (un @ l)))"
  by (cases "un = []") (simp_all add: repair_line_def Let_def)

lemma process_cell_snoc:
  "process_cell un (ls @ [k]) =
     (case process_cell un ls of
        (ls', q) \<Rightarrow> (ls' @ [fst (repair_line q k)], snd (repair_line q k)))"
proof (induction ls arbitrary: un)
  case Nil
  show ?case by (simp split: prod.splits)
next
  case (Cons a ls)
  show ?case by (simp add: Cons.IH split: prod.splits)
qed

lemma nr_escape_nonempty: "nr_escape e \<Longrightarrow> e \<noteq> []"
  by (erule nr_escape_form) simp

text \<open>
  Claim C10. The buffer of pending unterminated sequences is not reset between the cells
  of a row. Whatever was pending before (\<open>unterminated\<close>, and the lines \<open>ls\<close> before the
  last one), when the last physical line of a cell ends with a complete non-reset escape
  sequence \<open>e\<close>, the first physical line \<open>l\<close> of the next cell is repaired to the pending
  sequences of that last line, which end with \<open>e\<close>, followed by \<open>l\<close> (and by a reset
  when a sequence is still open at its end).
\<close>

theorem pending_escape_carried_into_next_cell:
  assumes "nr_escape e"
  shows "let q = snd (process_cell unterminated ls);
             p = concat (findall_nr (q @ k)) @ e
         in hd (process_cells unterminated ((ls @ [k @ e]) # (l # ls2) # rest) ! 1)
            = p @ l @ (if concat (findall_nr (p @ l)) \<noteq> [] then ansi_norm else [])"
proof -
  obtain ls' q where q: "process_cell unterminated ls = (ls', q)"
    by (cases "process_cell unterminated ls")
  let ?p = "concat (findall_nr (q @ k)) @ e"
  have f: "concat (findall_nr (q @ k @ e)) = ?p"
    using findall_nr_append_nr[OF assms, of "q @ k"] by simp
  have "snd (process_cell unterminated (ls @ [k @ e])) = ?p"
    by (simp add: process_cell_snoc q repair_line_eq f)
  then obtain c' where c: "process_cell unterminated (ls @ [k @ e]) = (c', ?p)"
    by (cases "process_cell unterminated (ls @ [k @ e])") simp
  obtain a b where rl: "repair_line ?p l = (a, b)"
    by (cases "repair_line ?p l")
  then have "a = fst (repair_line ?p l)" by simp
  then have a: "a = ?p @ l @ (if concat (findall_nr (?p @ l)) \<noteq> [] then ansi_norm else [])"
    by (simp only: repair_line_eq fst_conv)
  obtain d' p' where d: "process_cell b ls2 = (d', p')"
    by (cases "process_cell b ls2")
  have "process_cell ?p (l # ls2) = (a # d', p')"
    by (simp add: rl d)
  then have "hd (process_cells unterminated ((ls @ [k @ e]) # (l # ls2) # rest) ! 1) = a"
    by (simp add: c del: process_cell.simps)
  then show ?thesis unfolding a by (simp add: q Let_def)
qed

theorem pending_escape_carried_into_next_cell_witness:
  "nr_escape [27, 91, 51, 49, 109] \<and>
   process_lines [[u ''foo'' @ [27, 91, 51, 49, 109]], [u ''bar'']] ! 1 ! 0
     = [27, 91, 51, 49, 109] @ u ''bar'' @ ansi_norm"
proof -
  have e: "nr_escape [27, 91, 51, 49, 109]"
    by (simp add: nr_escape_def csi_body_def is_param_def is_inter_def is_final_def)
  have "hd (process_cells [] (([] @ [u ''foo'' @ [27, 91, 51, 49, 109]]) # (u ''bar'' # []) # []) ! 1)
     = [27, 91, 51, 49, 109] @ u ''bar'' @ ansi_norm"
    using pending_escape_carried_into_next_cell
            [OF e, of "[]" "[]" "u ''foo''" "u ''bar''" "[]" "[]"]
    by (simp add: Let_def u_def ansi_norm_def csi_body_def is_param_def is_inter_def is_final_def)
  then show ?thesis using e by (auto simp: process_lines_def split: prod.splits)
qed

section \<open>Scenario A\<close>

lemmas build_defs =
  and_then_def UniTable_def reset_def blank_def set_max_width_def set_style_def STYLES_def
  set_table_lines_def set_table_lines15_def set_padding_def header_def check_row_size_def
  add_row_def str_cell_def format_map_def fmt_auto_def fmt_int_def fmt_text_def to_float_def
  u_def Let_def

lemma scenario_A_state:
  assumes "scenario_A_builtins py"
  shows "scenario_A py = (None, scenario_A_table)"
  using assms
  by (auto simp: scenario_A_def scenario_A_table_def scenario_A_builtins_def build_defs)

lemma scenario_A_widths:
  assumes "scenario_A_builtins py"
  shows "compute_cols_width py scenario_A_table
         = Some (None, scenario_A_table\<lparr>self_width := Some [1, 1]\<rparr>)"
  using assms
  by (simp add: scenario_A_table_def scenario_A_builtins_def compute_cols_width_def
        natural_widths_def widen_def len_cell_def len_def Let_def)

lemma scenario_A_align:
  "check_align (scenario_A_table\<lparr>self_width := Some [1, 1]\<rparr>) = (None, scenario_A_drawn)"
  by (simp add: check_align_def scenario_A_table_def scenario_A_drawn_def u_def
        numeral_2_eq_2)

lemmas draw_defs =
  hline_def hline_header_def build_hline_def has_vlines_def has_hlines_def
  draw_line_def splitit_def wrap_cell_def valign_cell_def process_lines_def repair_line_def
  draw_phys_line_def draw_cell_def half_left_def half_right_def trunc_half_def times_def
  is_blank_def is_space_def len_def u_def Let_def

lemma scenario_A_header_line:
  assumes "scenario_A_builtins py"
  shows "draw_line py scenario_A_drawn [[65], [66]] True = Inr (u ''| A | B |\<newline>'')"
  using assms
  by (simp add: scenario_A_drawn_def scenario_A_table_def scenario_A_builtins_def draw_defs)

lemma scenario_A_row_line:
  assumes "scenario_A_builtins py"
  shows "draw_line py scenario_A_drawn [[49], [50]] False = Inr (u ''| 1 | 2 |\<newline>'')"
  using assms
  by (simp add: scenario_A_drawn_def scenario_A_table_def scenario_A_builtins_def draw_defs)

lemma scenario_A_hlines:
  "hline scenario_A_drawn TOP = Inr (u ''+---+---+\<newline>'')"
  "hline_header scenario_A_drawn MIDDLE = Inr (u ''+---+---+\<newline>'')"
  "hline scenario_A_drawn BOTTOM = Inr (u ''+---+---+\<newline>'')"
  by (simp_all add: scenario_A_drawn_def scenario_A_table_def draw_defs)

text \<open>
  Claim C1. For the header \<open>A\<close>, \<open>B\<close>, the row \<open>1\<close>, \<open>2\<close>, the glyphs \<open>-\<close>, \<open>|\<close>, \<open>+\<close>,
  \<open>-\<close>, padding 1, all decorations and the default alignments, the calls succeed and
  \<open>draw\<close> returns the five lines below, with no newline at the end.
\<close>

theorem scenario_A_exact_render:
  assumes "scenario_A_builtins py"
  shows "fst (scenario_A py) = None \<and>
         map_option fst (draw py (snd (scenario_A py)))
           = Some (Inr (Some (u ''+---+---+\<newline>| A | B |\<newline>+---+---+\<newline>| 1 | 2 |\<newline>+---+---+'')))"
proof -
  have sel: "self_has_border scenario_A_drawn" "self_has_header scenario_A_drawn"
    "self_header scenario_A_drawn = [[65], [66]]" "self_rows scenario_A_drawn = [[[49], [50]]]"
    by (simp_all add: scenario_A_drawn_def scenario_A_table_def)
  have pieces: "draw_pieces py scenario_A_drawn =
      [Inr (u ''+---+---+\<newline>''), Inr (u ''| A | B |\<newline>''), Inr (u ''+---+---+\<newline>''),
       Inr (u ''| 1 | 2 |\<newline>''), Inr (u ''+---+---+\<newline>'')]"
    by (simp add: draw_pieces_def sel scenario_A_hlines scenario_A_header_line[OF assms]
          scenario_A_row_line[OF assms])
  have "draw py scenario_A_table
        = Some (Inr (Some (u ''+---+---+\<newline>| A | B |\<newline>+---+---+\<newline>| 1 | 2 |\<newline>+---+---+'')),
                scenario_A_drawn)"
    unfolding draw_def scenario_A_widths[OF assms]
    by (simp add: scenario_A_align pieces) (simp add: scenario_A_table_def u_def)
  then show ?thesis by (simp add: scenario_A_state[OF assms])
qed

lemma str_of_int_small: "str_of_int 1 = [49]" "str_of_int 2 = [50]"
  by (simp_all add: str_of_int_def numeral_2_eq_2)

theorem scenario_A_exact_render_witness:
  "scenario_A_builtins ref_py \<and> fst (scenario_A ref_py) = None \<and>
   map_option fst (draw ref_py (snd (scenario_A ref_py)))
     = Some (Inr (Some (u ''+---+---+\<newline>| A | B |\<newline>+---+---+\<newline>| 1 | 2 |\<newline>+---+---+'')))"
proof -
  have b: "scenario_A_builtins ref_py"
    by (simp add: scenario_A_builtins_def ref_py_def ref_wcswidth_def ref_textwrap_def
          split_ws_def is_space_def digits_value_def str_of_int_small)
  show ?thesis using b scenario_A_exact_render[OF b] by simp
qed

section \<open>The size check\<close>

text \<open>
  Once a positive size is recorded, every array of another length is refused at the call,
  and the table is left as it was.
\<close>

lemma check_row_size_established:
  assumes "self_row_size t = Some n" and "n > 0"
  shows "check_row_size k t = (if k = n then (None, t) else (Some (ArraySizeError n k), t))"
  using assms by (auto simp: check_row_size_def)

lemma mismatch_raises_when_established:
  assumes "self_row_size t = Some n" and "n > 0" and "length array \<noteq> n"
  shows "header array t = (Some (ArraySizeError n (length array)), t)"
    and "add_row py array t = (Some (ArraySizeError n (length array)), t)"
    and "set_cols_align array t = (Some (ArraySizeError n (length array)), t)"
    and "set_header_align array t = (Some (ArraySizeError n (length array)), t)"
    and "set_cols_valign array t = (Some (ArraySizeError n (length array)), t)"
    and "set_cols_dtype ds t = (if length ds = n then (None, t\<lparr>self_dtype := Some ds\<rparr>)
                                else (Some (ArraySizeError n (length ds)), t))"
  using assms
  by (simp_all add: header_def add_row_def set_cols_align_def set_header_align_def
        set_cols_valign_def set_cols_dtype_def and_then_def
        check_row_size_established[OF assms(1,2)])

text \<open>
  Claim C2 says that every stored row and the header have the same number of cells, for
  every sequence of insertions, also when the first row is empty. The check reads
  \<open>not self._row_size\<close>, which holds for the size \<open>0\<close> as for \<open>None\<close>: after an empty row the
  next array sets the size anew. Here the empty row is followed by a header of two cells;
  no call raises, and the table holds a row of no cells under a header of two.
\<close>

theorem empty_first_row_defeats_size_check:
  "fst (empty_row_first py) = None \<and>
   self_rows (snd (empty_row_first py)) = [[]] \<and>
   self_header (snd (empty_row_first py)) = [u ''A'', u ''B'']"
  by (simp add: empty_row_first_def and_then_def UniTable_def reset_def blank_def
        set_max_width_def set_style_def STYLES_def set_table_lines_def set_table_lines15_def
        set_padding_def header_def check_row_size_def add_row_def u_def Let_def)

section \<open>The setters of padding, precision and widths\<close>

lemma foldl_min_le:
  "(foldl min (a::int) xs \<le> 0) = (a \<le> 0 \<or> (\<exists>x\<in>set xs. x \<le> 0))"
  by (induction xs arbitrary: a) (auto simp: min_def)

text \<open>
  Claim C9, as the code has it. A negative padding and a negative precision are refused at
  the call and the table is unchanged; a padding of zero or more is stored. An array of
  widths that holds a width that is not positive is refused at the call, and nothing of
  the table changes but the recorded size, which \<open>_check_row_size\<close> may have set before.
\<close>

theorem invalid_values_rejected_at_setter:
  "(amount < 0 \<longrightarrow> set_padding amount t = (Some (InvalidPadding amount), t)) \<and>
   (amount \<ge> 0 \<longrightarrow> set_padding amount t = (None, t\<lparr>self_pad := amount\<rparr>)) \<and>
   (width < 0 \<longrightarrow> set_precision width t = (Some (InvalidPrecision width), t)) \<and>
   ((\<exists>w\<in>set array. w \<le> 0) \<longrightarrow>
      fst (set_cols_width array t) \<noteq> None \<and>
      snd (set_cols_width array t) = t\<lparr>self_row_size := self_row_size (snd (set_cols_width array t))\<rparr>)"
proof -
  have "fst (set_cols_width array t) \<noteq> None \<and>
      snd (set_cols_width array t) = t\<lparr>self_row_size := self_row_size (snd (set_cols_width array t))\<rparr>"
    if "\<exists>w\<in>set array. w \<le> 0"
  proof -
    from that have ne: "array \<noteq> []" by auto
    then have "foldl min (hd array) (tl array) \<le> 0"
      using that by (cases array) (auto simp: foldl_min_le)
    then show ?thesis using ne
      by (auto simp: set_cols_width_def and_then_def check_row_size_def split: option.splits)
  qed
  then show ?thesis by (simp add: set_padding_def set_precision_def)
qed

theorem invalid_values_rejected_at_setter_witness:
  "((- 1::int) < 0 \<and> set_padding (- 1) default_table = (Some (InvalidPadding (- 1)), default_table)) \<and>
   ((0::int) \<ge> 0 \<and> set_padding 0 default_table = (None, default_table\<lparr>self_pad := 0\<rparr>)) \<and>
   ((- 2::int) < 0 \<and> set_precision (- 2) default_table = (Some (InvalidPrecision (- 2)), default_table)) \<and>
   ((\<exists>w\<in>set [3, 0::int]. w \<le> 0) \<and>
      set_cols_width [3, 0] default_table
        = (Some (NonPositiveWidth [3, 0]), default_table\<lparr>self_row_size := Some 2\<rparr>))"
proof -
  have e: "set_cols_width [3, 0] default_table
        = (Some (NonPositiveWidth [3, 0]), default_table\<lparr>self_row_size := Some 2\<rparr>)"
    by (simp add: set_cols_width_def and_then_def check_row_size_def default_table_def
          UniTable_def reset_def blank_def set_max_width_def set_style_def STYLES_def
          set_table_lines_def set_table_lines15_def set_padding_def u_def Let_def)
  show ?thesis
    using invalid_values_rejected_at_setter[of "- 1" default_table "- 2" "[3, 0]"]
          invalid_values_rejected_at_setter[of 0 default_table "- 2" "[3, 0]"] e
    by simp
qed

text \<open>
  Claim C9 as stated also makes a padding of zero an error. The guard of \<open>set_padding\<close> is
  \<open>amount < 0\<close>, as its docstring says (\<open>>= 0\<close>): zero is accepted and stored.
\<close>

theorem padding_zero_accepted:
  "fst (set_padding 0 default_table) = None \<and> self_pad (snd (set_padding 0 default_table)) = 0"
  by (simp add: set_padding_def)

section \<open>The errors of drawing\<close>

lemmas width_defs = natural_widths_def widen_def len_cell_def len_def Let_def

lemmas ref_defs = ref_py_def ref_wcswidth_def ref_textwrap_def split_ws_def is_space_def

lemma collect_Inl: "collect xs = Inl e \<Longrightarrow> Inl e \<in> set xs"
  by (induction xs) (auto split: sum.splits)

lemma distribute_result:
  assumes "distribute maxi a n i = Some r"
  shows "r = Inl IndexError \<or> (\<exists>w. r = Inr w)"
  by (rule distribute.raw_induct
        [where P = "\<lambda>maxi a n i r. r = Inl IndexError \<or> (\<exists>w. r = Inr w)", OF _ assms])
     (auto split: if_splits)

lemma compute_cols_width_frame:
  "compute_cols_width py t = Some (e, t') \<Longrightarrow> t' = t\<lparr>self_width := self_width t'\<rparr>"
  by (auto simp: compute_cols_width_def Let_def split: if_splits option.splits sum.splits)

lemma compute_cols_width_cached:
  "self_width t = Some w \<Longrightarrow> compute_cols_width py t = Some (None, t)"
  by (simp add: compute_cols_width_def)

lemma compute_cols_width_error:
  "compute_cols_width py t = Some (Some (WidthTooLow m k), t') \<longleftrightarrow>
     self_width t = None \<and> self_max_width t \<noteq> 0 \<and>
     sum_list (natural_widths py t) + overhead py t > self_max_width t \<and>
     self_max_width t < columns py t + overhead py t \<and>
     m = self_max_width t \<and> k = columns py t + overhead py t \<and> t' = t"
  by (auto simp: compute_cols_width_def columns_def overhead_def Let_def
           split: if_splits option.splits sum.splits dest: distribute_result)

lemma check_align_error: "check_align t = (Some e, t') \<Longrightarrow> e = TypeError \<and> t' = t"
  by (auto simp: check_align_def split: if_splits option.splits)

lemma check_align_frame:
  "check_align t = (e, t') \<Longrightarrow>
     t' = t\<lparr>self_header_align := self_header_align t', self_align := self_align t',
           self_valign := self_valign t'\<rparr>"
  by (auto simp: check_align_def split: if_splits option.splits)

lemma build_hline_error: "build_hline t h l = Inl e \<Longrightarrow> e = AttributeError"
  by (auto simp: build_hline_def Let_def split: if_splits option.splits)

lemma wrap_cell_error: "wrap_cell py c w = Inl e \<Longrightarrow> e = WrapError"
  by (auto simp: wrap_cell_def split: sum.splits if_splits option.splits dest!: collect_Inl)

lemma valign_cell_error: "valign_cell h n cv = Inl e \<Longrightarrow> e = TypeError"
  by (auto simp: valign_cell_def Let_def split: prod.splits if_splits)

lemma splitit_error:
  "splitit py t line h = Inl e \<Longrightarrow> e \<in> {AttributeError, WrapError, TypeError}"
  by (auto simp: splitit_def Let_def split: option.splits sum.splits if_splits
           dest!: collect_Inl dest: wrap_cell_error valign_cell_error
                 wrap_cell_error[OF sym] valign_cell_error[OF sym])

lemma draw_cell_error:
  "draw_cell py t h n i x = Inl e \<Longrightarrow> e \<in> {AttributeError, IndexError}"
  by (auto simp: draw_cell_def Let_def split: prod.splits option.splits sum.splits if_splits)

lemma draw_phys_line_error:
  "draw_phys_line py t h line ws als i = Inl e \<Longrightarrow> e \<in> {AttributeError, IndexError}"
  by (auto simp: draw_phys_line_def split: sum.splits dest!: collect_Inl
           dest: draw_cell_error draw_cell_error[OF sym])

lemma draw_line_error:
  "draw_line py t line h = Inl e \<Longrightarrow> e \<in> {AttributeError, WrapError, TypeError, IndexError}"
  by (auto simp: draw_line_def split: sum.splits list.splits option.splits
           dest!: collect_Inl dest: splitit_error draw_phys_line_error
                 draw_phys_line_error[OF sym])

lemma draw_pieces_error:
  "Inl e \<in> set (draw_pieces py t) \<Longrightarrow>
     e \<in> {AttributeError, WrapError, TypeError, IndexError}"
  by (auto simp: draw_pieces_def hline_def hline_header_def split: if_splits
           dest: build_hline_error draw_line_error build_hline_error[OF sym]
                 draw_line_error[OF sym])

lemma draw_width_error:
  "draw py t = Some (Inl (WidthTooLow m k), t') \<longleftrightarrow>
     (self_header t \<noteq> [] \<or> self_rows t \<noteq> []) \<and>
     self_width t = None \<and> self_max_width t \<noteq> 0 \<and>
     sum_list (natural_widths py t) + overhead py t > self_max_width t \<and>
     self_max_width t < columns py t + overhead py t \<and>
     m = self_max_width t \<and> k = columns py t + overhead py t \<and> t' = t"
  (is "?L \<longleftrightarrow> ?R")
proof
  assume ?L
  then have ne: "self_header t \<noteq> [] \<or> self_rows t \<noteq> []"
    by (auto simp: draw_def split: if_splits)
  with \<open>?L\<close> obtain r where r: "compute_cols_width py t = Some r"
    by (auto simp: draw_def split: option.splits)
  obtain e t1 where et: "r = (e, t1)" by (cases r)
  have "e = Some (WidthTooLow m k) \<and> t1 = t'"
  proof (cases e)
    case (Some e')
    with \<open>?L\<close> ne r et show ?thesis by (auto simp: draw_def)
  next
    case None
    with \<open>?L\<close> ne r et show ?thesis
      by (auto simp: draw_def split: prod.splits option.splits sum.splits
               dest: check_align_error dest!: collect_Inl draw_pieces_error)
  qed
  with r et have "compute_cols_width py t = Some (Some (WidthTooLow m k), t')" by simp
  with ne show ?R by (simp add: compute_cols_width_error)
next
  assume ?R
  then have "compute_cols_width py t = Some (Some (WidthTooLow m k), t')"
    by (simp add: compute_cols_width_error)
  with \<open>?R\<close> show ?L by (auto simp: draw_def)
qed

lemma sum_list_ge_length:
  "\<forall>w\<in>set ws. (1::int) \<le> w \<Longrightarrow> int (length ws) \<le> sum_list ws"
  by (induction ws) auto

lemma no_width_error_when_wide_enough:
  "self_max_width t \<ge> columns py t + overhead py t \<Longrightarrow>
     draw py t \<noteq> Some (Inl (WidthTooLow m k), t')"
  by (simp add: draw_width_error)

lemma width_error_when_every_column_has_content:
  assumes "self_header t \<noteq> [] \<or> self_rows t \<noteq> []" and "self_width t = None"
    and "self_max_width t \<noteq> 0" and "self_max_width t < columns py t + overhead py t"
    and "\<forall>w\<in>set (natural_widths py t). 1 \<le> w"
  shows "draw py t
         = Some (Inl (WidthTooLow (self_max_width t) (columns py t + overhead py t)), t)"
proof -
  have "columns py t \<le> sum_list (natural_widths py t)"
    unfolding columns_def using assms(5) by (rule sum_list_ge_length)
  with assms show ?thesis by (simp add: draw_width_error)
qed

text \<open>
  Claim C3, as the code has it. \<open>draw\<close> raises the error of a width that is too small
  exactly when the table is not empty, no width vector is stored (neither set with
  \<open>set_cols_width\<close> nor left by an earlier \<open>draw\<close>), the maximum width is bounded, the
  natural widths with the overhead exceed it, and it is below the number of columns plus
  the overhead; the error states the maximum width and that minimum, and the table is
  unchanged. So the error is never raised for a maximum width of at least columns plus
  overhead, and it is raised for every smaller one when no widths are stored and each
  column has a natural width of at least 1 (the two lemmas above).
\<close>

theorem width_error_iff:
  "draw py t = Some (Inl (WidthTooLow m k), t') \<longleftrightarrow>
     (self_header t \<noteq> [] \<or> self_rows t \<noteq> []) \<and>
     self_width t = None \<and> self_max_width t \<noteq> 0 \<and>
     sum_list (natural_widths py t) + overhead py t > self_max_width t \<and>
     self_max_width t < columns py t + overhead py t \<and>
     m = self_max_width t \<and> k = columns py t + overhead py t \<and> t' = t"
  by (rule draw_width_error)

lemma scenario_C_table:
  "fst (scenario_C py) = None"
  "self_header (snd (scenario_C py)) = [[97], [98]]"
  "self_rows (snd (scenario_C py)) = []"
  "self_width (snd (scenario_C py)) = None"
  "self_max_width (snd (scenario_C py)) = 5"
  "self_has_border (snd (scenario_C py))"
  by (simp_all add: scenario_C_def and_then_def UniTable_def reset_def blank_def
        set_max_width_def set_style_def STYLES_def set_table_lines_def set_table_lines15_def
        set_padding_def header_def check_row_size_def u_def Let_def)

lemma scenario_C_widths: "natural_widths ref_py (snd (scenario_C ref_py)) = [1, 1]"
  by (simp add: natural_widths_def scenario_C_table len_cell_def len_def ref_py_def
        ref_wcswidth_def)

text \<open>Scenario C: two columns, a border, maximum width 5; the error states the minimum 9.\<close>

theorem width_error_iff_witness:
  "fst (scenario_C ref_py) = None \<and>
   draw ref_py (snd (scenario_C ref_py))
     = Some (Inl (WidthTooLow 5 9), snd (scenario_C ref_py))"
  using width_error_iff[of ref_py "snd (scenario_C ref_py)" 5 9 "snd (scenario_C ref_py)"]
  by (simp add: scenario_C_table scenario_C_widths columns_def overhead_def)

text \<open>
  Claim C3 as stated has the error raised whenever the maximum width is below columns plus
  overhead. The source tests that only when the content does not fit: a table whose
  second column is empty has natural widths 1 and 0, which fit in the width 8 with the
  overhead 7, and it is drawn although 8 is below the minimum 9.
\<close>

theorem no_width_error_below_minimum:
  "fst (empty_column ref_py) = None \<and>
   self_max_width (snd (empty_column ref_py)) = 8 \<and>
   columns ref_py (snd (empty_column ref_py)) + overhead ref_py (snd (empty_column ref_py)) = 9 \<and>
   map_option fst (draw ref_py (snd (empty_column ref_py)))
     = Some (Inr (Some (u ''+---+--+\<newline>| a |  |\<newline>+---+--+\<newline>+---+--+'')))"
proof -
  have t: "empty_column ref_py = (None, empty_column_table)"
    by (simp add: empty_column_def empty_column_table_def build_defs)
  have w: "natural_widths ref_py empty_column_table = [1, 0]"
    by (simp add: empty_column_table_def width_defs ref_defs)
  have c: "compute_cols_width ref_py empty_column_table
           = Some (None, empty_column_table\<lparr>self_width := Some [1, 0]\<rparr>)"
    by (simp add: compute_cols_width_def w) (simp add: empty_column_table_def)
  have d: "map_option fst (draw ref_py empty_column_table)
     = Some (Inr (Some (u ''+---+--+\<newline>| a |  |\<newline>+---+--+\<newline>+---+--+'')))"
    unfolding draw_def c
    by (simp add: empty_column_table_def check_align_def draw_pieces_def draw_defs ref_defs
          numeral_2_eq_2)
  show ?thesis
    by (simp add: t d columns_def overhead_def w) (simp add: empty_column_table_def)
qed

section \<open>What drawing changes\<close>

lemma draw_frame:
  assumes "draw py t = Some (r, t')"
  shows "t' = t\<lparr>self_width := self_width t', self_header_align := self_header_align t',
                 self_align := self_align t', self_valign := self_valign t'\<rparr>"
proof (cases "self_header t = [] \<and> self_rows t = []")
  case True
  with assms show ?thesis by (simp add: draw_def)
next
  case False
  with assms obtain e t1 where c: "compute_cols_width py t = Some (e, t1)"
    by (auto simp: draw_def split: option.splits)
  obtain w where f1: "t1 = t\<lparr>self_width := w\<rparr>"
    using compute_cols_width_frame[OF c] by (rule that)
  show ?thesis
  proof (cases e)
    case (Some x)
    with assms False c have "t' = t1" by (simp add: draw_def)
    then show ?thesis by (simp add: f1)
  next
    case None
    obtain e2 t2 where a: "check_align t1 = (e2, t2)" by (cases "check_align t1")
    obtain x y z where f2:
      "t2 = t1\<lparr>self_header_align := x, self_align := y, self_valign := z\<rparr>"
      using check_align_frame[OF a] by (rule that)
    from assms False c None a have "t' = t2"
      by (auto simp: draw_def split: option.splits sum.splits)
    then show ?thesis by (simp add: f1 f2)
  qed
qed

lemma draw_keeps_stored_width:
  assumes "draw py t = Some (r, t')" and "self_width t = Some w"
  shows "self_width t' = Some w"
proof (cases "self_header t = [] \<and> self_rows t = []")
  case True
  with assms show ?thesis by (simp add: draw_def)
next
  case False
  obtain e2 t2 where a: "check_align t = (e2, t2)" by (cases "check_align t")
  obtain x y z where f2:
    "t2 = t\<lparr>self_header_align := x, self_align := y, self_valign := z\<rparr>"
    using check_align_frame[OF a] by (rule that)
  from assms False a have "t' = t2"
    by (auto simp: draw_def compute_cols_width_cached split: option.splits sum.splits)
  then show ?thesis using assms(2) by (simp add: f2)
qed

lemma check_row_size_width: "self_width (snd (check_row_size n t)) = self_width t"
  by (simp add: check_row_size_def split: option.splits)

lemma header_keeps_width: "self_width (snd (header array t)) = self_width t"
  by (simp add: header_def and_then_def check_row_size_def split: option.splits)

lemma add_row_keeps_width: "self_width (snd (add_row py array t)) = self_width t"
  by (simp add: add_row_def and_then_def check_row_size_def split: option.splits sum.splits)

lemma check_align_keeps:
  assumes "check_align t = (e, t')"
  shows "(self_header_align t \<noteq> None \<longrightarrow> self_header_align t' = self_header_align t) \<and>
         (self_align t \<noteq> None \<longrightarrow> self_align t' = self_align t) \<and>
         (self_valign t \<noteq> None \<longrightarrow> self_valign t' = self_valign t)"
  using assms by (auto simp: check_align_def split: if_splits option.splits)

lemma draw_keeps_set_alignments:
  assumes "draw py t = Some (r, t')"
  shows "(self_header_align t \<noteq> None \<longrightarrow> self_header_align t' = self_header_align t) \<and>
         (self_align t \<noteq> None \<longrightarrow> self_align t' = self_align t) \<and>
         (self_valign t \<noteq> None \<longrightarrow> self_valign t' = self_valign t)"
proof (cases "self_header t = [] \<and> self_rows t = []")
  case True
  with assms show ?thesis by (simp add: draw_def)
next
  case False
  with assms obtain e t1 where c: "compute_cols_width py t = Some (e, t1)"
    by (auto simp: draw_def split: option.splits)
  obtain w where f1: "t1 = t\<lparr>self_width := w\<rparr>"
    using compute_cols_width_frame[OF c] by (rule that)
  show ?thesis
  proof (cases e)
    case (Some x)
    with assms False c have "t' = t1" by (simp add: draw_def)
    then show ?thesis by (simp add: f1)
  next
    case None
    obtain e2 t2 where a: "check_align t1 = (e2, t2)" by (cases "check_align t1")
    from assms False c None a have "t' = t2"
      by (auto simp: draw_def split: option.splits sum.splits)
    then show ?thesis using check_align_keeps[OF a] by (simp add: f1)
  qed
qed

text \<open>
  Claim C7, as the code has it. A call of \<open>draw\<close> that returns changes nothing of the
  table but the width vector and the three alignment arrays, and those only where they
  were unset: a stored width vector, set by \<open>set_cols_width\<close> or left by an earlier
  \<open>draw\<close>, is kept as it is, and so are alignments that were set. Nothing invalidates the
  stored widths: \<open>add_row\<close> and \<open>header\<close> keep them.
\<close>

theorem draw_changes_only_widths_and_alignments:
  "(draw py t = Some (r, t') \<longrightarrow>
      t' = t\<lparr>self_width := self_width t', self_header_align := self_header_align t',
               self_align := self_align t', self_valign := self_valign t'\<rparr> \<and>
      (self_width t \<noteq> None \<longrightarrow> self_width t' = self_width t) \<and>
      (self_header_align t \<noteq> None \<longrightarrow> self_header_align t' = self_header_align t) \<and>
      (self_align t \<noteq> None \<longrightarrow> self_align t' = self_align t) \<and>
      (self_valign t \<noteq> None \<longrightarrow> self_valign t' = self_valign t)) \<and>
   self_width (snd (add_row py array t)) = self_width t \<and>
   self_width (snd (header array t)) = self_width t"
  using draw_frame[of py t r t'] draw_keeps_stored_width[of py t r t']
        draw_keeps_set_alignments[of py t r t']
  by (auto simp: add_row_keeps_width header_keeps_width)

lemma one_row_built: "one_row ref_py = (None, one_row_table)"
  by (simp add: one_row_def one_row_table_def build_defs set_cols_dtype_def)

lemma one_row_draw:
  "draw ref_py one_row_table
   = Some (Inr (Some (u ''+---+\<newline>| a |\<newline>+---+'')), one_row_drawn)"
proof -
  have w: "natural_widths ref_py one_row_table = [1]"
    by (simp add: one_row_table_def width_defs ref_defs)
  have c: "compute_cols_width ref_py one_row_table
           = Some (None, one_row_table\<lparr>self_width := Some [1]\<rparr>)"
    by (simp add: compute_cols_width_def w) (simp add: one_row_table_def)
  show ?thesis
    unfolding draw_def c
    by (simp add: one_row_table_def one_row_drawn_def check_align_def draw_pieces_def
          draw_defs ref_defs)
qed

lemma second_row_added: "add_row ref_py [u ''a b''] one_row_drawn = (None, two_rows_table)"
  by (simp add: two_rows_table_def one_row_drawn_def one_row_table_def build_defs)

lemma two_rows_draw:
  "draw ref_py two_rows_table
   = Some (Inr (Some (u ''+---+\<newline>| a |\<newline>+---+\<newline>| a |\<newline>| b |\<newline>+---+'')),
           two_rows_table)"
proof -
  have c: "compute_cols_width ref_py two_rows_table = Some (None, two_rows_table)"
    by (simp add: compute_cols_width_def two_rows_table_def one_row_drawn_def)
  have a: "check_align two_rows_table = (None, two_rows_table)"
    by (simp add: check_align_def two_rows_table_def one_row_drawn_def)
  show ?thesis
    unfolding draw_def c
    by (simp add: a)
       (simp add: two_rows_table_def one_row_drawn_def one_row_table_def draw_pieces_def
          draw_defs ref_defs numeral_2_eq_2)
qed

text \<open>The table of one row: \<open>draw\<close> stores the width 1 and the default alignments.\<close>

theorem draw_changes_only_widths_and_alignments_witness:
  "draw ref_py one_row_table
     = Some (Inr (Some (u ''+---+\<newline>| a |\<newline>+---+'')), one_row_drawn) \<and>
   one_row_drawn
     = one_row_table\<lparr>self_width := Some [1], self_header_align := Some [[99]],
         self_align := Some [[108]], self_valign := Some [[116]]\<rparr> \<and>
   self_width (snd (add_row ref_py [u ''a b''] one_row_drawn)) = Some [1]"
  using draw_changes_only_widths_and_alignments
          [of ref_py one_row_table "Inr (Some (u ''+---+\<newline>| a |\<newline>+---+''))"
              one_row_drawn "[u ''a b'']"]
        draw_changes_only_widths_and_alignments
          [of ref_py one_row_drawn "Inr (Some (u ''+---+\<newline>| a |\<newline>+---+''))"
              one_row_drawn "[u ''a b'']"]
  by (simp add: one_row_draw) (simp add: one_row_drawn_def)

text \<open>
  Claim C7 as stated has the second \<open>draw\<close> compute the widths from the new content.
  \<open>_compute_cols_width\<close> returns at once when \<open>_width\<close> exists, and \<open>add_row\<close> does not
  remove it: after \<open>draw\<close>, the wider row \<open>a b\<close> and \<open>draw\<close> again, the width is still 1,
  where the content asks for 3, and the new row is wrapped into two lines.
\<close>

theorem cached_widths_survive_add_row:
  "one_row ref_py = (None, one_row_table) \<and>
   draw ref_py one_row_table
     = Some (Inr (Some (u ''+---+\<newline>| a |\<newline>+---+'')), one_row_drawn) \<and>
   add_row ref_py [u ''a b''] one_row_drawn = (None, two_rows_table) \<and>
   natural_widths ref_py two_rows_table = [3] \<and>
   draw ref_py two_rows_table
     = Some (Inr (Some (u ''+---+\<newline>| a |\<newline>+---+\<newline>| a |\<newline>| b |\<newline>+---+'')),
             two_rows_table) \<and>
   self_width two_rows_table = Some [1]"
proof -
  have "natural_widths ref_py two_rows_table = [3]"
    by (simp add: two_rows_table_def one_row_drawn_def one_row_table_def width_defs ref_defs)
  moreover have "self_width two_rows_table = Some [1]"
    by (simp add: two_rows_table_def one_row_drawn_def)
  ultimately show ?thesis
    by (simp add: one_row_built one_row_draw second_row_added two_rows_draw)
qed

section \<open>Display width and inserted escape sequences\<close>

lemma ansi_escape_match_not_esc: "c \<noteq> 27 \<Longrightarrow> ansi_escape_match (c # cs) = None"
  by (cases cs) simp_all

lemma strip_ansi_plain: "27 \<notin> set t \<Longrightarrow> strip_ansi t = t"
  by (induction t) (simp_all add: ansi_escape_match_not_esc)

lemma ansi_escape_match_append:
  assumes "ansi_escape_match e = Some (m, r)"
  shows "ansi_escape_match (e @ x) = Some (m, r @ x)"
proof -
  from assms obtain a c s where e: "e = a # c # s"
    by (cases e rule: ansi_escape_match.cases) auto
  show ?thesis
  proof (cases "is_fe c")
    case True
    with assms e show ?thesis by (auto split: if_splits)
  next
    case False
    with assms e obtain b where b: "csi_body s = Some (b, r)" and m: "m = a # c # b"
      and ac: "a = 27" "c = 91"
      by (auto split: if_splits option.splits)
    from b have "csi_body (s @ x) = Some (b, r @ x)" by (rule csi_body_append)
    with False ac m e show ?thesis by simp
  qed
qed

lemma is_escape_nonempty: "is_escape e \<Longrightarrow> e \<noteq> []"
  by (auto simp: is_escape_def)

lemma strip_ansi_escape_prefix:
  assumes "is_escape e"
  shows "strip_ansi (e @ x) = strip_ansi x"
proof -
  from assms obtain c cs where e: "e = c # cs" by (cases e) (auto simp: is_escape_def)
  from assms have "ansi_escape_match (e @ x) = Some (e, [] @ x)"
    unfolding is_escape_def by (rule ansi_escape_match_append)
  then have "ansi_escape_match (c # cs @ x) = Some (c # cs, x)" by (simp add: e)
  then show ?thesis unfolding e by (simp del: ansi_escape_match.simps)
qed

lemma styled_strip:
  assumes "styled t t'" and "27 \<notin> set t"
  shows "strip_ansi t' = t"
  using assms
proof (induction rule: styled.induct)
  case plain
  show ?case by simp
next
  case (keep t t' c)
  then have "c \<noteq> 27" by auto
  then have "ansi_escape_match (c # t') = None" by (rule ansi_escape_match_not_esc)
  with keep show ?case by (simp del: ansi_escape_match.simps)
next
  case (insert e t t')
  then show ?case by (simp add: strip_ansi_escape_prefix)
qed

text \<open>
  Claim C8, for a text without the escape character: if \<open>t\<close> contains no ESC (code point 27)
  and \<open>t'\<close> is obtained from \<open>t\<close> only by inserting substrings that match the
  escape-sequence pattern, then \<open>StringLengthCalculator.len\<close> gives the same width for both,
  whatever \<open>wcswidth\<close> is.
\<close>

theorem width_blind_to_inserted_escapes:
  assumes "27 \<notin> set t" and "styled t t'"
  shows "len py t' = len py t"
  using assms by (simp add: len_def styled_strip strip_ansi_plain)

theorem width_blind_to_inserted_escapes_witness:
  "27 \<notin> set (u ''ab'') \<and>
   styled (u ''ab'') ([27, 91, 51, 49, 109] @ 97 # ansi_norm @ 98 # []) \<and>
   len ref_py ([27, 91, 51, 49, 109] @ 97 # ansi_norm @ 98 # []) = len ref_py (u ''ab'')"
proof -
  have e1: "is_escape [27, 91, 51, 49, 109]"
    by (simp add: is_escape_def csi_body_def is_fe_def is_param_def is_inter_def is_final_def)
  have e2: "is_escape ansi_norm"
    by (simp add: is_escape_def ansi_norm_def csi_body_def is_fe_def is_param_def is_inter_def
          is_final_def)
  have s: "styled (u ''ab'') ([27, 91, 51, 49, 109] @ 97 # ansi_norm @ 98 # [])"
    unfolding u_def
    by (simp del: append.simps) (intro styled.intros e1 e2)
  have p: "27 \<notin> set (u ''ab'')" by (simp add: u_def)
  show ?thesis using p s width_blind_to_inserted_escapes[OF p s, of ref_py] by simp
qed

text \<open>
  Without the hypothesis the property fails: for \<open>t = ESC [ m\<close>, inserting the reset
  sequence \<open>ESC [ 0 m\<close> after its second character leaves \<open>ESC [\<close> followed by the
  reset and \<open>m\<close>; stripping removes only the reset, and \<open>wcswidth\<close> answers -1 for
  the remaining control character, whereas \<open>t\<close> itself strips to the empty string of width 0.
\<close>

theorem escape_inserted_into_escape_changes_width:
  "styled [27, 91, 109] (27 # 91 # ansi_norm @ [109]) \<and>
   len ref_py [27, 91, 109] = 0 \<and>
   len ref_py (27 # 91 # ansi_norm @ [109]) = - 1"
proof -
  have e2: "is_escape ansi_norm"
    by (simp add: is_escape_def ansi_norm_def csi_body_def is_fe_def is_param_def is_inter_def
          is_final_def)
  have "styled [27, 91, 109] (27 # 91 # ansi_norm @ [109])"
    by (intro styled.intros e2)
  moreover have "len ref_py [27, 91, 109] = 0"
    by (simp add: len_def ref_py_def ref_wcswidth_def csi_body_def is_fe_def is_param_def
          is_inter_def is_final_def)
  moreover have "len ref_py (27 # 91 # ansi_norm @ [109]) = - 1"
    by (simp add: len_def ref_py_def ref_wcswidth_def ansi_norm_def csi_body_def is_fe_def
          is_param_def is_inter_def is_final_def)
  ultimately show ?thesis by simp
qed

section \<open>Wrapping of cells with escape sequences\<close>

text \<open>\<open>wrap_cell\<close> does not consult the display width at all.\<close>

lemma wrap_cell_ignores_wcswidth:
  "wrap_cell (py\<lparr>wcswidth := w\<rparr>) cell width = wrap_cell py cell width"
  by (simp add: wrap_cell_def cong: if_cong)

lemma csi_bold: "csi_body [49, 109] = Some ([49, 109], [])"
  by (simp add: csi_body_def is_param_def is_inter_def is_final_def)

lemma styled_cell_built:
  "and_then (UniTable ref_py None 80 (u ''ascii'') 1 None) (add_row ref_py [styled_cell])
   = (None, styled_cell_table)"
  by (simp add: styled_cell_def styled_cell_table_def build_defs ref_py_def digits_value_def)

lemma plain_cell_built:
  "and_then (UniTable ref_py None 80 (u ''ascii'') 1 None) (add_row ref_py [u ''abc defg''])
   = (None, plain_cell_table)"
  by (simp add: plain_cell_table_def styled_cell_def styled_cell_table_def build_defs ref_py_def
        digits_value_def)

lemma styled_cell_len: "len ref_py styled_cell = 8"
  by (simp add: styled_cell_def len_def ref_defs u_def csi_body_def is_fe_def is_param_def
        is_inter_def is_final_def)

lemma styled_cell_wrapped:
  "wrap_cell ref_py styled_cell 8 = Inr [[27, 91, 49, 109] @ u ''abc'', u ''defg'']"
  by (simp add: styled_cell_def wrap_cell_def ref_defs u_def is_blank_def)

lemma plain_cell_wrapped:
  "wrap_cell ref_py (u ''abc defg'') 8 = Inr [u ''abc defg'']"
  by (simp add: wrap_cell_def ref_defs u_def is_blank_def)


lemma replicate_small:
  "replicate 4 x = [x, x, x, x]" "replicate 5 x = [x, x, x, x, x]"
  "replicate 8 x = [x, x, x, x, x, x, x, x]"
  by (simp_all add: numeral_eq_Suc)

lemma styled_cell_draw:
  "draw ref_py styled_cell_table
   = Some (Inr (Some (u ''+----------+\<newline>| '' @ [27, 91, 49, 109] @ u ''abc'' @ ansi_norm
                      @ u ''      |\<newline>| '' @ [27, 91, 49, 109] @ u ''defg'' @ ansi_norm
                      @ u ''     |\<newline>+----------+'')),
           styled_cell_table\<lparr>self_width := Some [8], self_header_align := Some [[99]],
             self_align := Some [[108]], self_valign := Some [[116]]\<rparr>)"
proof -
  have w: "natural_widths ref_py styled_cell_table = [8]"
    by (simp add: styled_cell_table_def styled_cell_def width_defs ref_defs u_def csi_body_def
          is_fe_def is_param_def is_inter_def is_final_def)
  have c: "compute_cols_width ref_py styled_cell_table
           = Some (None, styled_cell_table\<lparr>self_width := Some [8]\<rparr>)"
    by (simp add: compute_cols_width_def w) (simp add: styled_cell_table_def)
  show ?thesis
    unfolding draw_def c
    by (simp add: styled_cell_table_def styled_cell_def check_align_def draw_pieces_def
          draw_defs ref_defs ansi_norm_def csi_body_def is_fe_def is_param_def is_inter_def
          is_final_def replicate_small)
qed

lemma plain_cell_draw:
  "draw ref_py plain_cell_table
   = Some (Inr (Some (u ''+----------+\<newline>| abc defg |\<newline>+----------+'')),
           plain_cell_table\<lparr>self_width := Some [8], self_header_align := Some [[99]],
             self_align := Some [[108]], self_valign := Some [[116]]\<rparr>)"
proof -
  have w: "natural_widths ref_py plain_cell_table = [8]"
    by (simp add: plain_cell_table_def styled_cell_table_def width_defs ref_defs u_def)
  have c: "compute_cols_width ref_py plain_cell_table
           = Some (None, plain_cell_table\<lparr>self_width := Some [8]\<rparr>)"
    by (simp add: compute_cols_width_def w) (simp add: plain_cell_table_def styled_cell_table_def)
  show ?thesis
    unfolding draw_def c
    by (simp add: plain_cell_table_def styled_cell_table_def check_align_def draw_pieces_def
          draw_defs ref_defs replicate_small)
qed


text \<open>
  Claim C5 asks that escape sequences inserted into a cell never change where the cell is
  wrapped. \<open>_splitit\<close> wraps with \<open>textwrapper\<close>, which counts the characters of the
  escape sequences, and not with \<open>ColorAwareWrapper.wrap\<close>, which the table holds in
  \<open>_cwrap\<close> and never calls. The bold cell has the display width 8 of the plain one and
  its column gets the width 8; the plain cell is drawn on one line, and the bold cell is
  wrapped into two, although the colour-aware wrapper keeps it on one line.
\<close>

theorem styling_changes_where_a_cell_is_wrapped:
  "len ref_py styled_cell = len ref_py (u ''abc defg'') \<and>
   wrap_cell ref_py (u ''abc defg'') 8 = Inr [u ''abc defg''] \<and>
   wrap_cell ref_py styled_cell 8 = Inr [[27, 91, 49, 109] @ u ''abc'', u ''defg''] \<and>
   wrap ref_py styled_cell 8 = styled_cell \<and>
   map_option fst (draw ref_py plain_cell_table)
     = Some (Inr (Some (u ''+----------+\<newline>| abc defg |\<newline>+----------+''))) \<and>
   map_option fst (draw ref_py styled_cell_table)
     = Some (Inr (Some (u ''+----------+\<newline>| '' @ [27, 91, 49, 109] @ u ''abc'' @ ansi_norm
                        @ u ''      |\<newline>| '' @ [27, 91, 49, 109] @ u ''defg'' @ ansi_norm
                        @ u ''     |\<newline>+----------+'')))"
proof -
  have "len ref_py (u ''abc defg'') = 8"
    by (simp add: len_def ref_defs u_def)
  moreover have "wrap ref_py styled_cell 8 = styled_cell"
    by (simp add: wrap_def styled_cell_def len_def ref_defs u_def csi_body_def
          is_fe_def is_param_def is_inter_def is_final_def)
  ultimately show ?thesis
    by (simp add: styled_cell_len styled_cell_wrapped plain_cell_wrapped styled_cell_draw
          plain_cell_draw del: append.simps)
qed

end
